(* ===== verification/Prelude.thy ===== *)
theory Prelude
  imports Main "HOL-Library.Word"
begin

text \<open>
  Shared vocabulary of the development: the byte type, the error values that model Go's
  \<open>error\<close> chains, the outcome of a Go function that may also panic, the
  \<^theory_text>\<open>named_theorems\<close> collections the component theories fill, and generic
  lemmas on sums and maps that the component proofs use through \<open>simp\<close>.
\<close>

section \<open>Bytes, errors, outcomes\<close>

type_synonym byte = "8 word"
type_synonym bytes = "byte list"

text \<open>go-ethereum's \<open>common.Address\<close>, a 20-byte array, as the 160-bit word its bytes spell big-endian.\<close>

type_synonym address = "160 word"

text \<open>
  Go errors are values. The ones this code creates or forwards are:
  \<^item> \<open>SerializeError msg\<close>: the error an \<open>ISerializable.Serialize\<close> implementation returns;
  \<^item> \<open>DeserializeError msg\<close>: the error a \<open>Deserialize*File\<close> function returns;
  \<^item> \<open>PathError op path\<close>: an \<open>*os.PathError\<close> from \<open>os.ReadFile\<close> or
    \<open>os.WriteFile\<close> (its \<open>Op\<close> and \<open>Path\<close>);
  \<^item> \<open>CidError msg\<close>: the error of the content-identifier calculation;
  \<^item> \<open>Wrap prefix e\<close>: \<open>fmt.Errorf("prefix: %w", e)\<close>, the prefix already formatted
    with its path argument, so that \<open>errors.Unwrap\<close> gives \<open>e\<close> back.
\<close>

datatype error =
    SerializeError string
  | DeserializeError string
  | PathError string string
  | CidError string
  | Wrap string error

text \<open>
  A Go function returns, returns an error, or panics (a nil dereference here). The
  three are told apart in the result of the orchestrator.
\<close>

datatype 'a outcome = Ok 'a | Fail error | Panic string

primrec unwrap :: "error \<Rightarrow> error" where
  "unwrap (SerializeError m) = SerializeError m"
| "unwrap (DeserializeError m) = DeserializeError m"
| "unwrap (PathError op p) = PathError op p"
| "unwrap (CidError m) = CidError m"
| "unwrap (Wrap p e) = unwrap e"

section \<open>Collections\<close>

named_theorems go_model "unfolding rules of the modelled Go operations"
named_theorems fs_simps "facts about the modelled file system"

section \<open>Generic lemmas on error propagation\<close>

text \<open>
  Go's \<open>if err != nil { return ..., fmt.Errorf(...) }\<close> is a \<open>case\<close> on a sum in the
  model. These two rules turn such a \<open>case\<close> with a known result back into the facts
  about the scrutinee, so that component proofs read the successful path in one step.
\<close>

lemma case_sum_eq_Inr [simp]:
  "((case x of Inl e \<Rightarrow> Inl (f e) | Inr v \<Rightarrow> g v) = Inr r) \<longleftrightarrow> (\<exists>v. x = Inr v \<and> g v = Inr r)"
  by (cases x) auto

lemma case_sum_eq_Inl_Inr [simp]:
  "x = Inl e \<Longrightarrow> (case x of Inl e \<Rightarrow> f e | Inr v \<Rightarrow> g v) = f e"
  "x = Inr v \<Longrightarrow> (case x of Inl e \<Rightarrow> f e | Inr v \<Rightarrow> g v) = g v"
  by simp_all

lemma unwrap_Wrap_iter [simp]: "unwrap (Wrap a (Wrap b e)) = unwrap e"
  by simp

section \<open>Generic lemmas on strings\<close>

lemma append_ne_self [simp]: "xs \<noteq> [] \<Longrightarrow> ys @ xs \<noteq> ys"
  by simp

lemma append_ne_self' [simp]: "xs \<noteq> [] \<Longrightarrow> ys \<noteq> ys @ xs"
  by simp

end
