(* ===== verification/Filepath.thy ===== *)
theory Filepath
  imports Prelude
begin

text \<open>
  Go's \<open>path/filepath.Base\<close> on a Unix system (separator \<open>'/'\<close>, no volume names),
  which \<open>LocalFile.FileName\<close> and \<open>saveJSONArtifacts\<close> call to turn a full path into
  the file name that keys the identifier map and names the file inside its IPFS
  directory. Go strings are byte strings, as Isabelle's \<open>string\<close> is.
  \<^verbatim>\<open>
  func Base(path string) string {
      if path == "" { return "." }
      for len(path) > 0 && os.IsPathSeparator(path[len(path)-1]) { path = path[0 : len(path)-1] }
      path = path[len(VolumeName(path)):]
      i := len(path) - 1
      for i >= 0 && !os.IsPathSeparator(path[i]) { i-- }
      if i >= 0 { path = path[i+1:] }
      if path == "" { return string(Separator) }
      return path
  }
  \<close>
  The two loops scan from the end; the model reverses the string and uses
  \<open>dropWhile\<close> (strip trailing separators) and \<open>takeWhile\<close> (the last element).
\<close>

definition is_sep :: "char \<Rightarrow> bool" where
  "is_sep c \<longleftrightarrow> c = CHR ''/''"

definition strip_trailing_seps :: "string \<Rightarrow> string" where
  "strip_trailing_seps p = rev (dropWhile is_sep (rev p))"

definition last_element :: "string \<Rightarrow> string" where
  "last_element p = rev (takeWhile (\<lambda>c. \<not> is_sep c) (rev p))"

definition go_base :: "string \<Rightarrow> string" where
  "go_base p =
     (if p = [] then ''.''
      else (let q = last_element (strip_trailing_seps p)
            in if q = [] then ''/'' else q))"

lemmas [go_model] = go_base_def strip_trailing_seps_def last_element_def is_sep_def

subsection \<open>Lemmas\<close>

lemma last_element_no_sep: "c \<in> set (last_element p) \<Longrightarrow> \<not> is_sep c"
  by (auto simp: last_element_def dest: set_takeWhileD)

lemma last_element_append_nosep:
  "\<forall>c \<in> set e. \<not> is_sep c \<Longrightarrow> last_element (p @ e) = last_element p @ e"
proof -
  assume "\<forall>c \<in> set e. \<not> is_sep c"
  then have "takeWhile (\<lambda>c. \<not> is_sep c) (rev e @ rev p) = rev e @ takeWhile (\<lambda>c. \<not> is_sep c) (rev p)"
    by (intro takeWhile_append2) simp
  then show ?thesis by (simp add: last_element_def)
qed

lemma strip_trailing_seps_nosep_last:
  "e \<noteq> [] \<Longrightarrow> \<not> is_sep (last e) \<Longrightarrow> strip_trailing_seps (p @ e) = p @ e"
  by (cases e rule: rev_cases) (auto simp: strip_trailing_seps_def)

lemma last_element_nonempty:
  "p \<noteq> [] \<Longrightarrow> \<not> is_sep (last p) \<Longrightarrow> last_element p \<noteq> []"
  by (cases p rule: rev_cases) (auto simp: last_element_def)

lemma go_base_nonempty: "go_base p \<noteq> []"
  by (simp add: go_base_def Let_def)

lemma go_base_no_sep:
  "go_base p = ''/'' \<or> (\<forall>c \<in> set (go_base p). \<not> is_sep c)"
  by (auto simp: go_base_def Let_def is_sep_def dest: last_element_no_sep)

text \<open>
  The file name of a path with an extension appended: when the path is not empty and
  does not end in a separator, and the extension holds no separator, the base name of
  \<open>path ++ ext\<close> is the base name of \<open>path\<close> followed by \<open>ext\<close>.
\<close>

lemma go_base_append_ext:
  assumes "p \<noteq> []" and "\<not> is_sep (last p)"
    and "e \<noteq> []" and "\<forall>c \<in> set e. \<not> is_sep c"
  shows "go_base (p @ e) = go_base p @ e"
proof -
  have lp: "\<not> is_sep (last (p @ e))" using assms(3,4) by simp
  have sp: "strip_trailing_seps p = p"
    using strip_trailing_seps_nosep_last [of p "[]"] assms(1,2) by simp
  have "strip_trailing_seps (p @ e) = p @ e"
    using strip_trailing_seps_nosep_last [OF _ lp, of "[]"] assms(1) by simp
  moreover have "last_element (p @ e) = last_element p @ e"
    using assms(4) by (rule last_element_append_nosep)
  moreover have "last_element p \<noteq> []"
    using assms(1,2) by (rule last_element_nonempty)
  ultimately show ?thesis
    using assms(1) sp by (simp add: go_base_def Let_def)
qed

lemma dropWhile_hd_not: "dropWhile P xs \<noteq> [] \<Longrightarrow> \<not> P (hd (dropWhile P xs))"
  by (induction xs) auto

lemma go_base_split:
  assumes p: "p \<noteq> []" and nonempty: "dropWhile is_sep (rev p) \<noteq> []"
  shows "\<exists>pre post. p = pre @ go_base p @ post \<and> go_base p \<noteq> [] \<and> CHR ''/'' \<notin> set (go_base p)
        \<and> set post \<subseteq> {CHR ''/''} \<and> (pre = [] \<or> last pre = CHR ''/'')"
proof -
  let ?rest = "dropWhile is_sep (rev p)"
  let ?qR = "takeWhile (\<lambda>c. \<not> is_sep c) ?rest"
  let ?rest2 = "dropWhile (\<lambda>c. \<not> is_sep c) ?rest"
  have qR_ne: "?qR \<noteq> []"
    using dropWhile_hd_not [OF nonempty] nonempty by (cases ?rest) auto
  have base: "go_base p = rev ?qR"
    using p qR_ne by (simp add: go_base_def last_element_def strip_trailing_seps_def)
  have split1: "rev p = takeWhile is_sep (rev p) @ ?rest" by simp
  have split2: "?rest = ?qR @ ?rest2" by simp
  have "p = rev ?rest2 @ rev ?qR @ rev (takeWhile is_sep (rev p))"
    by (metis rev_append rev_rev_ident split1 split2 append_assoc)
  moreover have "CHR ''/'' \<notin> set (rev ?qR)"
    by (auto simp: is_sep_def dest: set_takeWhileD)
  moreover have "set (rev (takeWhile is_sep (rev p))) \<subseteq> {CHR ''/''}"
    by (auto simp: is_sep_def dest: set_takeWhileD)
  moreover have "rev ?rest2 = [] \<or> last (rev ?rest2) = CHR ''/''"
  proof (cases "?rest2 = []")
    case False
    then have "\<not> \<not> is_sep (hd ?rest2)" by (rule dropWhile_hd_not)
    with False show ?thesis by (simp add: is_sep_def last_rev)
  qed simp
  ultimately show ?thesis
    using base qR_ne by (metis Nil_is_rev_conv)
qed

text \<open>
  What \<open>filepath.Base\<close> returns: \<open>"."\<close> for the empty path, \<open>"/"\<close> for a
  path of separators only, and otherwise the last element of the path: a non-empty
  separator-free infix that only separators follow and that starts the path or follows
  a separator.
\<close>

theorem go_base_last_element:
  "(p = [] \<and> go_base p = ''.'')
   \<or> (set p \<subseteq> {CHR ''/''} \<and> go_base p = ''/'')
   \<or> (\<exists>pre post. p = pre @ go_base p @ post \<and> go_base p \<noteq> [] \<and> CHR ''/'' \<notin> set (go_base p)
        \<and> set post \<subseteq> {CHR ''/''} \<and> (pre = [] \<or> last pre = CHR ''/''))"
proof (cases "p = []")
  case True
  then show ?thesis by (simp add: go_base_def)
next
  case False
  show ?thesis
  proof (cases "dropWhile is_sep (rev p) = []")
    case True
    then have "set p \<subseteq> {CHR ''/''}"
      by (auto simp: dropWhile_eq_Nil_conv is_sep_def)
    moreover have "go_base p = ''/''"
      using False by (simp add: go_base_def last_element_def strip_trailing_seps_def True)
    ultimately show ?thesis by simp
  next
    case nonempty: False
    from go_base_split [OF False nonempty] show ?thesis by blast
  qed
qed

end
