(* ===== verification/LocalFile.thy ===== *)
theory LocalFile
  imports Prelude Filepath
begin

text \<open>
  The local artifact of \<open>src/shared/services/rewards/files.go\<close>: the generic wrapper
  \<open>LocalFile[T ISerializable]\<close> that binds a payload to a full path, with its
  operations \<open>Serialize\<close>, \<open>Write\<close>, \<open>Path\<close>, \<open>FileName\<close> and
  \<open>CreateCompressedFileAndCid\<close>, and the two readers \<open>ReadLocalRewardsFile\<close> and
  \<open>ReadLocalMinipoolPerformanceFile\<close>, and the interfaces \<open>ISerializable\<close> and
  \<open>ILocalFile\<close> through which the orchestrator calls the wrapper. It also holds what these operations act on: the
  file system, the rewards object the orchestrator shares with the wrapper, and the
  interface of the collaborators outside \<open>src/\<close> (payload serialisation, the
  content-identifier calculation, the zstd encoder, the configured paths).
\<close>

section \<open>Payloads\<close>

text \<open>
  \<open>IRewardsFile\<close> as far as this code uses it: \<open>GetHeader().Index\<close>,
  the header's \<open>MinipoolPerformanceFileCID\<close> that \<open>SetMinipoolPerformanceFileCID\<close>
  writes, \<open>GetMinipoolPerformanceFile()\<close>, and the rest of the tree (\<open>'t\<close>), which
  this code never reads. \<open>'m\<close> is the performance file.
\<close>

record ('t, 'm) rewards_file =
  rf_index :: nat
  rf_perf_cid :: string
  rf_perf_file :: 'm
  rf_tree :: 't

definition set_minipool_performance_file_cid ::
    "string \<Rightarrow> ('t, 'm) rewards_file \<Rightarrow> ('t, 'm) rewards_file" where
  "set_minipool_performance_file_cid c r = r\<lparr>rf_perf_cid := c\<rparr>"

section \<open>The collaborators' interface\<close>

text \<open>
  The functions this file calls that are not in it: \<open>Serialize\<close> of the two payload
  types, \<open>DeserializeRewardsFile\<close> and \<open>DeserializeMinipoolPerformanceFile\<close>, the
  content-identifier calculation \<open>singleFileDirIPFSCid(bytes, filename)\<close> with
  \<open>cid.Cid.String()\<close>, the zstd encoder at \<open>SpeedBestCompression\<close>
  (\<open>encoder.EncodeAll\<close>; \<open>zstd.NewWriter\<close> only fails on invalid options, and the
  code ignores that error), and the smartnode configuration's
  \<open>GetMinipoolPerformancePath(index, true)\<close> and
  \<open>GetRewardsTreePath(index, true, RewardsExtensionJSON)\<close>. Each is a field of the
  environment record, so that every lemma below holds for every implementation.
\<close>

record ('t, 'm, 'c) artifact_env =
  ser_rewards :: "('t, 'm) rewards_file \<Rightarrow> error + bytes"
  ser_perf :: "'m \<Rightarrow> error + bytes"
  deser_rewards :: "bytes \<Rightarrow> error + ('t, 'm) rewards_file"
  deser_perf :: "bytes \<Rightarrow> error + 'm"
  ipfs_cid :: "bytes \<Rightarrow> string \<Rightarrow> error + 'c"
  cid_string :: "'c \<Rightarrow> string"
  zstd_encode :: "bytes \<Rightarrow> bytes"
  perf_path :: "nat \<Rightarrow> string"
  tree_path :: "nat \<Rightarrow> string"

text \<open>\<open>config.RewardsTreeIpfsExtension\<close>, the extension of the compressed files.\<close>

definition rewards_tree_ipfs_extension :: string where
  "rewards_tree_ipfs_extension = ''.zst''"

section \<open>The file system\<close>

text \<open>
  The files as a map from full path to contents, the paths a write to fails (a missing
  directory, no permission), and the log of every successful write in order, which
  makes the order of the writes observable. \<open>os.WriteFile\<close> either fails (the model
  leaves the files as they were: a failure at open time) or replaces the whole file;
  \<open>os.ReadFile\<close> fails on a missing file.
\<close>

record fsys =
  files :: "string \<rightharpoonup> bytes"
  unwritable :: "string set"
  wlog :: "(string \<times> bytes) list"

definition fs_put :: "string \<Rightarrow> bytes \<Rightarrow> fsys \<Rightarrow> fsys" where
  "fs_put p d s = s\<lparr>files := (files s)(p \<mapsto> d), wlog := wlog s @ [(p, d)]\<rparr>"

definition os_write_file :: "string \<Rightarrow> bytes \<Rightarrow> fsys \<Rightarrow> error + fsys" where
  "os_write_file p d s = (if p \<in> unwritable s then Inl (PathError ''open'' p) else Inr (fs_put p d s))"

definition os_read_file :: "string \<Rightarrow> fsys \<Rightarrow> error + bytes" where
  "os_read_file p s = (case files s p of None \<Rightarrow> Inl (PathError ''open'' p) | Some d \<Rightarrow> Inr d)"

section \<open>The world\<close>

text \<open>
  The state the operations change: the rewards object the orchestrator holds by pointer
  (the \<open>rewardsFile\<close> argument of \<open>saveJSONArtifacts\<close>) and the file system.
\<close>

record ('t, 'm) world =
  rewards :: "('t, 'm) rewards_file"
  fs :: fsys

section \<open>LocalFile\<close>

text \<open>
  \<open>LocalFile[T]\<close> holds its payload \<open>f\<close> by interface value, that is by pointer.
  Which object it points to matters: the orchestrator mutates the rewards object after
  building the wrapper and before serialising it. The payload is therefore one of
  \<^item> \<open>PerfPayload m\<close>: a performance file (nothing in this code mutates one, so its
    value is all the wrapper needs);
  \<^item> \<open>RewardsVal r\<close>: a rewards object that only this wrapper refers to (one read
    back from disk);
  \<^item> \<open>RewardsRef\<close>: the rewards object of the world, shared with the orchestrator;
    serialising it reads the object as it is at that moment.
\<close>

datatype ('t, 'm) payload =
    PerfPayload 'm
  | RewardsVal "('t, 'm) rewards_file"
  | RewardsRef

record ('t, 'm) local_file =
  lf_f :: "('t, 'm) payload"
  full_path :: string

definition new_local_file :: "('t, 'm) payload \<Rightarrow> string \<Rightarrow> ('t, 'm) local_file" where
  "new_local_file f p = \<lparr>lf_f = f, full_path = p\<rparr>"

text \<open>\<open>Impl()\<close>: the wrapped object, the shared rewards object as it is now for \<open>RewardsRef\<close>.\<close>

definition lf_impl :: "('t, 'm) world \<Rightarrow> ('t, 'm) local_file \<Rightarrow> ('t, 'm) payload" where
  "lf_impl w lf = (case lf_f lf of RewardsRef \<Rightarrow> RewardsVal (rewards w) | p \<Rightarrow> p)"

definition lf_serialize ::
    "('t, 'm, 'c) artifact_env \<Rightarrow> ('t, 'm) world \<Rightarrow> ('t, 'm) local_file \<Rightarrow> error + bytes" where
  "lf_serialize E w lf =
     (case lf_f lf of
        PerfPayload m \<Rightarrow> ser_perf E m
      | RewardsVal r \<Rightarrow> ser_rewards E r
      | RewardsRef \<Rightarrow> ser_rewards E (rewards w))"

definition lf_write ::
    "('t, 'm, 'c) artifact_env \<Rightarrow> ('t, 'm) world \<Rightarrow> ('t, 'm) local_file
      \<Rightarrow> error + (bytes \<times> ('t, 'm) world)" where
  "lf_write E w lf =
     (case lf_serialize E w lf of
        Inl e \<Rightarrow> Inl (Wrap ''error serializing file'' e)
      | Inr data \<Rightarrow>
          (case os_write_file (full_path lf) data (fs w) of
             Inl e \<Rightarrow> Inl (Wrap (''error writing file to '' @ full_path lf) e)
           | Inr s' \<Rightarrow> Inr (data, w\<lparr>fs := s'\<rparr>)))"

definition lf_path :: "('t, 'm) local_file \<Rightarrow> string" where
  "lf_path lf = full_path lf"

definition lf_file_name :: "('t, 'm) local_file \<Rightarrow> string" where
  "lf_file_name lf = go_base (lf_path lf)"

text \<open>
  \<open>CreateCompressedFileAndCid\<close>: serialise, compress, compute the identifier of the
  compressed bytes under the base name of \<open>fullPath + ".zst"\<close>, write the compressed
  bytes to \<open>fullPath + ".zst"\<close>. Go returns the file name with every error but the
  first; the model returns it on the left with the error.
\<close>

definition create_compressed_file_and_cid ::
    "('t, 'm, 'c) artifact_env \<Rightarrow> ('t, 'm) world \<Rightarrow> ('t, 'm) local_file
      \<Rightarrow> (string \<times> error) + (string \<times> 'c \<times> ('t, 'm) world)" where
  "create_compressed_file_and_cid E w lf =
     (case lf_serialize E w lf of
        Inl e \<Rightarrow> Inl ('''', Wrap ''error serializing file'' e)
      | Inr data \<Rightarrow>
          (let compressed = zstd_encode E data;
               filename = full_path lf @ rewards_tree_ipfs_extension
           in case ipfs_cid E compressed (go_base filename) of
                Inl e \<Rightarrow> Inl (filename, Wrap ''error calculating CID'' e)
              | Inr c \<Rightarrow>
                  (case os_write_file filename compressed (fs w) of
                     Inl e \<Rightarrow> Inl (filename, Wrap (''error writing file to '' @ full_path lf) e)
                   | Inr s' \<Rightarrow> Inr (filename, c, w\<lparr>fs := s'\<rparr>))))"

section \<open>The interfaces ISerializable and ILocalFile\<close>

text \<open>
  An interface value is the record of its methods, each closed over the receiver; the
  methods that touch state take and return the world. \<open>ILocalFile\<close> embeds
  \<open>ISerializable\<close>, so its record extends that of \<open>ISerializable\<close>.
  \<open>saveJSONArtifacts\<close> holds its wrappers as a \<open>[]ILocalFile\<close> and calls them only
  through these fields.
\<close>

record ('t, 'm) iserializable =
  il_serialize :: "('t, 'm) world \<Rightarrow> error + bytes"

record ('t, 'm, 'c) ilocal_file = "('t, 'm) iserializable" +
  il_write :: "('t, 'm) world \<Rightarrow> error + (bytes \<times> ('t, 'm) world)"
  il_path :: string
  il_file_name :: string
  il_create_compressed_file_and_cid ::
    "('t, 'm) world \<Rightarrow> (string \<times> error) + (string \<times> 'c \<times> ('t, 'm) world)"

text \<open>\<open>*LocalFile[T]\<close> as an \<open>ILocalFile\<close>: its method set.\<close>

definition local_file_ilocal ::
    "('t, 'm, 'c) artifact_env \<Rightarrow> ('t, 'm) local_file \<Rightarrow> ('t, 'm, 'c) ilocal_file" where
  "local_file_ilocal E lf =
     \<lparr>il_serialize = (\<lambda>w. lf_serialize E w lf),
      il_write = (\<lambda>w. lf_write E w lf),
      il_path = lf_path lf,
      il_file_name = lf_file_name lf,
      il_create_compressed_file_and_cid = (\<lambda>w. create_compressed_file_and_cid E w lf)\<rparr>"

section \<open>Reading artifacts back\<close>

definition read_local_rewards_file ::
    "('t, 'm, 'c) artifact_env \<Rightarrow> fsys \<Rightarrow> string \<Rightarrow> error + ('t, 'm) local_file" where
  "read_local_rewards_file E s p =
     (case os_read_file p s of
        Inl e \<Rightarrow> Inl (Wrap (''error reading rewards file from '' @ p) e)
      | Inr d \<Rightarrow>
          (case deser_rewards E d of
             Inl e \<Rightarrow> Inl (Wrap (''error unmarshaling rewards file from '' @ p) e)
           | Inr r \<Rightarrow> Inr (new_local_file (RewardsVal r) p)))"

definition read_local_minipool_performance_file ::
    "('t, 'm, 'c) artifact_env \<Rightarrow> fsys \<Rightarrow> string \<Rightarrow> error + ('t, 'm) local_file" where
  "read_local_minipool_performance_file E s p =
     (case os_read_file p s of
        Inl e \<Rightarrow> Inl (Wrap (''error reading rewards file from '' @ p) e)
      | Inr d \<Rightarrow>
          (case deser_perf E d of
             Inl e \<Rightarrow> Inl (Wrap (''error unmarshaling rewards file from '' @ p) e)
           | Inr m \<Rightarrow> Inr (new_local_file (PerfPayload m) p)))"

section \<open>An example instance\<close>

text \<open>
  A small executable instance of the interface, used to run the model on concrete inputs
  in the witnesses: a performance file is a number \<open>n\<close> serialised as \<open>n\<close> bytes;
  a rewards file serialises its performance-file identifier followed by its index byte;
  the identifier of \<open>b\<close> under the name \<open>n\<close> is \<open>n\<close>, a slash and one star
  per byte; compression keeps the first byte.
\<close>

definition ex_env :: "(unit, nat, string) artifact_env" where
  "ex_env =
     \<lparr>ser_rewards = (\<lambda>r. Inr (map of_char (rf_perf_cid r) @ [of_nat (rf_index r)])),
      ser_perf = (\<lambda>m. Inr (replicate m 7)),
      deser_rewards = (\<lambda>d. Inr \<lparr>rf_index = unat (last d),
                                 rf_perf_cid = map (\<lambda>b. char_of (unat b)) (butlast d),
                                 rf_perf_file = 0, rf_tree = ()\<rparr>),
      deser_perf = (\<lambda>d. Inr (length d)),
      ipfs_cid = (\<lambda>b n. Inr (n @ ''/'' @ replicate (length b) CHR ''*'')),
      cid_string = id,
      zstd_encode = take 1,
      perf_path = (\<lambda>i. ''rp/perf.json''),
      tree_path = (\<lambda>i. ''rp/tree.json'')\<rparr>"

definition ex_world :: "(unit, nat) world" where
  "ex_world =
     \<lparr>rewards = \<lparr>rf_index = 5, rf_perf_cid = ''old'', rf_perf_file = 2, rf_tree = ()\<rparr>,
      fs = \<lparr>files = Map.empty, unwritable = {}, wlog = []\<rparr>\<rparr>"

lemmas [go_model] = lf_serialize_def lf_write_def lf_path_def lf_file_name_def
  create_compressed_file_and_cid_def new_local_file_def set_minipool_performance_file_cid_def
  read_local_rewards_file_def read_local_minipool_performance_file_def

lemmas [fs_simps] = os_write_file_def os_read_file_def

section \<open>Lemmas\<close>

subsection \<open>The file system\<close>

lemma fs_put_files [simp]: "files (fs_put p d s) = (files s)(p \<mapsto> d)"
  and fs_put_wlog [simp]: "wlog (fs_put p d s) = wlog s @ [(p, d)]"
  and fs_put_unwritable [simp]: "unwritable (fs_put p d s) = unwritable s"
  by (simp_all add: fs_put_def)

lemma os_write_file_eq_Inr [simp]:
  "os_write_file p d s = Inr s' \<longleftrightarrow> p \<notin> unwritable s \<and> s' = fs_put p d s"
  by (auto simp: os_write_file_def)

lemma os_write_file_eq_Inl [simp]:
  "os_write_file p d s = Inl e \<longleftrightarrow> p \<in> unwritable s \<and> e = PathError ''open'' p"
  by (auto simp: os_write_file_def)

lemma os_read_fs_put [simp]: "os_read_file p (fs_put p d s) = Inr d"
  by (simp add: os_read_file_def)

subsection \<open>Serialize and Write\<close>

text \<open>
  \<open>Write\<close> on its successful path: the bytes it returns are what \<open>Serialize\<close>
  gives, and the world changes only by the one write of those bytes to the wrapper's
  path; the payload objects are untouched.
\<close>

lemma lf_write_eq_Inr:
  "lf_write E w lf = Inr (d, w') \<longleftrightarrow>
     lf_serialize E w lf = Inr d \<and> full_path lf \<notin> unwritable (fs w)
     \<and> w' = w\<lparr>fs := fs_put (full_path lf) d (fs w)\<rparr>"
  by (auto simp: lf_write_def split: sum.splits)

text \<open>\<open>Write\<close> on its two error paths: nothing is written.\<close>

lemma lf_write_eq_Inl:
  "lf_write E w lf = Inl e \<longleftrightarrow>
     (\<exists>e0. lf_serialize E w lf = Inl e0 \<and> e = Wrap ''error serializing file'' e0)
     \<or> (\<exists>d. lf_serialize E w lf = Inr d \<and> full_path lf \<in> unwritable (fs w)
           \<and> e = Wrap (''error writing file to '' @ full_path lf) (PathError ''open'' (full_path lf)))"
  by (auto simp: lf_write_def split: sum.splits)

lemma lf_serialize_fs_indep [simp]:
  "lf_serialize E (w\<lparr>fs := s\<rparr>) lf = lf_serialize E w lf"
  by (simp add: lf_serialize_def split: payload.splits)

subsection \<open>CreateCompressedFileAndCid\<close>

lemma create_compressed_file_and_cid_eq_Inr:
  "create_compressed_file_and_cid E w lf = Inr (fname, c, w') \<longleftrightarrow>
     (\<exists>d. lf_serialize E w lf = Inr d
        \<and> fname = full_path lf @ rewards_tree_ipfs_extension
        \<and> ipfs_cid E (zstd_encode E d) (go_base fname) = Inr c
        \<and> fname \<notin> unwritable (fs w)
        \<and> w' = w\<lparr>fs := fs_put fname (zstd_encode E d) (fs w)\<rparr>)"
  by (auto simp: create_compressed_file_and_cid_def Let_def split: sum.splits)

subsection \<open>LocalFile as an ILocalFile\<close>

lemma ilocal_file_local_file [simp]:
  "il_serialize (local_file_ilocal E lf) w = lf_serialize E w lf"
  "il_write (local_file_ilocal E lf) w = lf_write E w lf"
  "il_path (local_file_ilocal E lf) = lf_path lf"
  "il_file_name (local_file_ilocal E lf) = lf_file_name lf"
  "il_create_compressed_file_and_cid (local_file_ilocal E lf) w = create_compressed_file_and_cid E w lf"
  by (simp_all add: local_file_ilocal_def)

subsection \<open>Properties\<close>

text \<open>
  C9. Reading back what \<open>Write\<close> wrote: when the rewards payload's
  serialisation round-trips (its deserialiser gives the object back), the wrapper that
  \<open>ReadLocalRewardsFile\<close> builds from the file \<open>Write\<close> wrote is the wrapper written.
\<close>

theorem write_then_read_rewards_file:
  assumes "lf_write E w lf = Inr (d, w')"
    and "lf_f lf = RewardsVal r"
    and "\<forall>d. ser_rewards E r = Inr d \<longrightarrow> deser_rewards E d = Inr r"
  shows "read_local_rewards_file E (fs w') (lf_path lf) = Inr lf"
proof -
  from assms(1) have ser: "lf_serialize E w lf = Inr d"
    and w': "w' = w\<lparr>fs := fs_put (full_path lf) d (fs w)\<rparr>"
    by (simp_all add: lf_write_eq_Inr)
  from ser assms(2) have "ser_rewards E r = Inr d" by (simp add: lf_serialize_def)
  with assms(3) have "deser_rewards E d = Inr r" by blast
  with w' assms(2) show ?thesis
    by (cases lf) (simp add: read_local_rewards_file_def lf_path_def new_local_file_def)
qed

theorem write_then_read_rewards_file_witness:
  "\<exists>d w'. lf_write ex_env ex_world
        (\<lparr>lf_f = RewardsVal \<lparr>rf_index = 5, rf_perf_cid = ''Qm'', rf_perf_file = 0, rf_tree = ()\<rparr>,
          full_path = ''rp/tree.json''\<rparr> :: (unit, nat) local_file) = Inr (d, w')
     \<and> read_local_rewards_file ex_env (fs w')
         (lf_path (\<lparr>lf_f = RewardsVal \<lparr>rf_index = 5, rf_perf_cid = ''Qm'', rf_perf_file = 0, rf_tree = ()\<rparr>,
                    full_path = ''rp/tree.json''\<rparr> :: (unit, nat) local_file))
       = Inr (\<lparr>lf_f = RewardsVal \<lparr>rf_index = 5, rf_perf_cid = ''Qm'', rf_perf_file = 0, rf_tree = ()\<rparr>,
               full_path = ''rp/tree.json''\<rparr> :: (unit, nat) local_file)"
proof -
  let ?r = "\<lparr>rf_index = 5, rf_perf_cid = ''Qm'', rf_perf_file = 0, rf_tree = ()\<rparr> :: (unit, nat) rewards_file"
  let ?lf = "\<lparr>lf_f = RewardsVal ?r, full_path = ''rp/tree.json''\<rparr> :: (unit, nat) local_file"
  obtain d w' where wr: "lf_write ex_env ex_world ?lf = Inr (d, w')"
    by (simp add: lf_write_def lf_serialize_def os_write_file_def ex_env_def ex_world_def)
  have rt: "\<forall>d. ser_rewards ex_env ?r = Inr d \<longrightarrow> deser_rewards ex_env d = Inr ?r"
    by (simp add: ex_env_def) code_simp
  have "lf_f ?lf = RewardsVal ?r" by simp
  from wr write_then_read_rewards_file [OF wr this rt] show ?thesis
    by blast
qed

text \<open>
  C10. \<open>CreateCompressedFileAndCid\<close> on its successful path: the compressed file is
  \<open>fullPath + ".zst"\<close>, its identifier is computed over the compressed serialisation
  under the wrapper's file name followed by \<open>".zst"\<close> (when the path is not empty and
  does not end in a separator), and that file, holding the compressed bytes, is the
  only change to the files.
\<close>

theorem compressed_file_named_and_identified:
  assumes "create_compressed_file_and_cid E w lf = Inr (fname, c, w')"
    and "lf_path lf \<noteq> []" and "last (lf_path lf) \<noteq> CHR ''/''"
  shows "\<exists>d. lf_serialize E w lf = Inr d \<and> fname = lf_path lf @ ''.zst''
     \<and> ipfs_cid E (zstd_encode E d) (lf_file_name lf @ ''.zst'') = Inr c
     \<and> files (fs w') = (files (fs w))(fname \<mapsto> zstd_encode E d)"
proof -
  have base: "go_base (full_path lf @ ''.zst'') = go_base (full_path lf) @ ''.zst''"
    using assms(2,3) by (intro go_base_append_ext) (simp_all add: lf_path_def is_sep_def)
  from assms(1) show ?thesis
    by (auto simp: create_compressed_file_and_cid_eq_Inr rewards_tree_ipfs_extension_def base
        lf_path_def lf_file_name_def)
qed

theorem compressed_file_named_and_identified_witness:
  "\<exists>fname c w'. create_compressed_file_and_cid ex_env ex_world
        \<lparr>lf_f = RewardsRef, full_path = ''rp/tree.json''\<rparr> = Inr (fname, c, w')
     \<and> c = ''tree.json.zst/*''
     \<and> (\<exists>d. lf_serialize ex_env ex_world \<lparr>lf_f = RewardsRef, full_path = ''rp/tree.json''\<rparr> = Inr d
        \<and> fname = lf_path (\<lparr>lf_f = RewardsRef, full_path = ''rp/tree.json''\<rparr> :: (unit, nat) local_file) @ ''.zst''
        \<and> ipfs_cid ex_env (zstd_encode ex_env d)
            (lf_file_name (\<lparr>lf_f = RewardsRef, full_path = ''rp/tree.json''\<rparr> :: (unit, nat) local_file) @ ''.zst'') = Inr c
        \<and> files (fs w') = (files (fs ex_world))(fname \<mapsto> zstd_encode ex_env d))"
proof -
  let ?lf = "\<lparr>lf_f = RewardsRef, full_path = ''rp/tree.json''\<rparr> :: (unit, nat) local_file"
  obtain fname c w' where cc: "create_compressed_file_and_cid ex_env ex_world ?lf = Inr (fname, c, w')"
    and "c = ''tree.json.zst/*''"
    by (simp add: create_compressed_file_and_cid_def lf_serialize_def os_write_file_def ex_env_def
        ex_world_def rewards_tree_ipfs_extension_def go_model Let_def)
  moreover have p1: "lf_path ?lf \<noteq> []" and p2: "last (lf_path ?lf) \<noteq> CHR ''/''"
    by (simp_all add: lf_path_def)
  ultimately show ?thesis
    using compressed_file_named_and_identified [OF cc p1 p2] by auto
qed


text \<open>
  C11. The error paths of \<open>CreateCompressedFileAndCid\<close> are exactly three: the
  serialisation (with an empty file name), the identifier calculation and the write
  (both with the compressed file name). The encoder's construction error is discarded
  (\<open>encoder, _ :=\<close>), so no failure of the compression itself is ever reported.
\<close>

theorem create_compressed_file_and_cid_errors:
  "create_compressed_file_and_cid E w lf = Inl (n, e) \<longleftrightarrow>
     (\<exists>e0. lf_serialize E w lf = Inl e0 \<and> n = [] \<and> e = Wrap ''error serializing file'' e0)
     \<or> (\<exists>d e0. lf_serialize E w lf = Inr d \<and> n = full_path lf @ rewards_tree_ipfs_extension
          \<and> ipfs_cid E (zstd_encode E d) (go_base n) = Inl e0 \<and> e = Wrap ''error calculating CID'' e0)
     \<or> (\<exists>d c. lf_serialize E w lf = Inr d \<and> n = full_path lf @ rewards_tree_ipfs_extension
          \<and> ipfs_cid E (zstd_encode E d) (go_base n) = Inr c \<and> n \<in> unwritable (fs w)
          \<and> e = Wrap (''error writing file to '' @ full_path lf) (PathError ''open'' n))"
proof (cases "lf_serialize E w lf")
  case (Inl e0)
  then show ?thesis by (auto simp: create_compressed_file_and_cid_def)
next
  case (Inr d)
  show ?thesis
  proof (cases "ipfs_cid E (zstd_encode E d) (go_base (full_path lf @ rewards_tree_ipfs_extension))")
    case (Inl e0)
    with Inr show ?thesis by (auto simp: create_compressed_file_and_cid_def Let_def)
  next
    case (Inr c)
    with \<open>lf_serialize E w lf = Inr d\<close> show ?thesis
      by (auto simp: create_compressed_file_and_cid_def Let_def os_write_file_def)
  qed
qed

end
