(* ===== verification/Artifacts.thy ===== *)
theory Artifacts
  imports LocalFile
begin

text \<open>
  The artifact orchestrator \<open>saveJSONArtifacts\<close> of
  \<open>src/shared/services/rewards/files.go\<close>: it builds the two wrappers (performance file
  first, rewards file second: "Do not reorder!"), and for each writes the plain file,
  records its identifier, and either sets the sentinel \<open>"---"\<close> (untrusted node) or
  writes the compressed copy, records its identifier, injects the compressed performance
  identifier into the rewards object (\<open>i == 0\<close>) and takes the compressed rewards
  identifier as the primary one (\<open>i == 1\<close>). The theory proves what a run writes, in
  which order, what the persisted rewards file embeds, what is returned, and that an
  untrusted run dereferences the nil \<open>primaryCid\<close>.
\<close>

section \<open>The orchestrator\<close>

definition set_world_perf_cid :: "string \<Rightarrow> ('t, 'm) world \<Rightarrow> ('t, 'm) world" where
  "set_world_perf_cid c w = w\<lparr>rewards := set_minipool_performance_file_cid c (rewards w)\<rparr>"

text \<open>
  The loop body, over the list of wrappers (\<open>ILocalFile\<close> values, called only through
  their methods) with the index \<open>i\<close>, the pointer
  \<open>primaryCid\<close> (\<open>None\<close> is nil) and the map \<open>out\<close>. An error returns at once,
  with the world as it is then: the files already written stay written. In the trusted
  branch the variable \<open>c\<close> is reassigned by the \<open>:=\<close> of line 187, so the
  identifier injected and taken as primary is the compressed file's.
\<close>

fun save_loop ::
    "('t, 'm, 'c) artifact_env \<Rightarrow> bool \<Rightarrow> nat \<Rightarrow> ('t, 'm, 'c) ilocal_file list
      \<Rightarrow> 'c option \<Rightarrow> (string \<rightharpoonup> 'c) \<Rightarrow> ('t, 'm) world
      \<Rightarrow> (error + ('c option \<times> (string \<rightharpoonup> 'c))) \<times> ('t, 'm) world" where
  "save_loop E node_trusted i [] primary out w = (Inr (primary, out), w)"
| "save_loop E node_trusted i (f # rest) primary out w =
     (case il_write f w of
        Inl e \<Rightarrow> (Inl (Wrap (''error saving '' @ il_path f) e), w)
      | Inr (data, w1) \<Rightarrow>
          (case ipfs_cid E data (il_file_name f) of
             Inl e \<Rightarrow> (Inl (Wrap (''error calculating cid for saved file '' @ il_path f) e), w1)
           | Inr c \<Rightarrow>
               (let out1 = out(il_file_name f \<mapsto> c) in
                if \<not> node_trusted then
                  save_loop E node_trusted (Suc i) rest primary out1 (set_world_perf_cid ''---'' w1)
                else
                  (case il_create_compressed_file_and_cid f w1 of
                     Inl (_, e) \<Rightarrow> (Inl (Wrap (''error compressing file '' @ il_path f) e), w1)
                   | Inr (compressed_path, c', w2) \<Rightarrow>
                       (let out2 = out1(go_base compressed_path \<mapsto> c');
                            w3 = (if i = 0 then set_world_perf_cid (cid_string E c') w2 else w2);
                            primary' = (if i = 1 then Some c' else primary)
                        in save_loop E node_trusted (Suc i) rest primary' out2 w3)))))"

definition artifact_files :: "('t, 'm, 'c) artifact_env \<Rightarrow> ('t, 'm) world \<Rightarrow> ('t, 'm, 'c) ilocal_file list" where
  "artifact_files E w =
     (let current_index = rf_index (rewards w)
      in [local_file_ilocal E (new_local_file (PerfPayload (rf_perf_file (rewards w))) (perf_path E current_index)),
          local_file_ilocal E (new_local_file RewardsRef (tree_path E current_index))])"

definition save_json_artifacts ::
    "('t, 'm, 'c) artifact_env \<Rightarrow> bool \<Rightarrow> ('t, 'm) world
      \<Rightarrow> ('c \<times> (string \<rightharpoonup> 'c)) outcome \<times> ('t, 'm) world" where
  "save_json_artifacts E node_trusted w =
     (case save_loop E node_trusted 0 (artifact_files E w) None Map.empty w of
        (Inl e, w') \<Rightarrow> (Fail e, w')
      | (Inr (None, out), w') \<Rightarrow> (Panic ''invalid memory address or nil pointer dereference'', w')
      | (Inr (Some c, out), w') \<Rightarrow> (Ok (c, out), w'))"

lemmas [go_model] = set_world_perf_cid_def artifact_files_def save_json_artifacts_def

section \<open>Lemmas on the loop\<close>

lemmas save_unfold = Let_def lf_write_def create_compressed_file_and_cid_def os_write_file_def
  new_local_file_def lf_serialize_def lf_file_name_def lf_path_def set_world_perf_cid_def
  artifact_files_def save_json_artifacts_def

lemma fs_set_world_perf_cid [simp]: "fs (set_world_perf_cid c w) = fs w"
  by (simp add: set_world_perf_cid_def)

text \<open>The untrusted branch never assigns \<open>primaryCid\<close>.\<close>

lemma save_loop_untrusted_primary:
  "save_loop E False i lfs pr out w = (Inr (pr', out'), w') \<Longrightarrow> pr' = pr"
proof (induction E "False" i lfs pr out w arbitrary: pr' out' w' rule: save_loop.induct)
  case (1 E i pr out w)
  then show ?case by simp
next
  case (2 E i f rest pr out w)
  then show ?case
    by (auto simp: Let_def split: sum.splits prod.splits)
qed

text \<open>
  The whole of a successful trusted run: which collaborator calls succeed with which
  results, the map returned, the rewards object after the run, and the four writes.
\<close>

lemma save_json_artifacts_trusted_Ok:
  fixes w :: "('t, 'm) world" and E :: "('t, 'm, 'c) artifact_env"
  defines "r \<equiv> rewards w"
  defines "pp \<equiv> perf_path E (rf_index r)" and "tp \<equiv> tree_path E (rf_index r)"
  defines "x \<equiv> rewards_tree_ipfs_extension"
  shows "save_json_artifacts E True w = (Ok (p, out), w') \<longleftrightarrow>
   (\<exists>dm c1 c2 dr c3.
      ser_perf E (rf_perf_file r) = Inr dm \<and> pp \<notin> unwritable (fs w) \<and>
      ipfs_cid E dm (go_base pp) = Inr c1 \<and>
      ipfs_cid E (zstd_encode E dm) (go_base (pp @ x)) = Inr c2 \<and> pp @ x \<notin> unwritable (fs w) \<and>
      ser_rewards E (set_minipool_performance_file_cid (cid_string E c2) r) = Inr dr \<and>
      tp \<notin> unwritable (fs w) \<and> ipfs_cid E dr (go_base tp) = Inr c3 \<and>
      ipfs_cid E (zstd_encode E dr) (go_base (tp @ x)) = Inr p \<and> tp @ x \<notin> unwritable (fs w) \<and>
      out = [go_base pp \<mapsto> c1, go_base (pp @ x) \<mapsto> c2, go_base tp \<mapsto> c3, go_base (tp @ x) \<mapsto> p] \<and>
      w' = w\<lparr>rewards := set_minipool_performance_file_cid (cid_string E c2) r,
             fs := fs_put (tp @ x) (zstd_encode E dr) (fs_put tp dr
                     (fs_put (pp @ x) (zstd_encode E dm) (fs_put pp dm (fs w))))\<rparr>)"
  unfolding assms
  by (auto simp: save_unfold split: sum.splits prod.splits option.splits if_splits)

text \<open>The whole of an untrusted run that gets past both plain writes.\<close>

lemma save_loop_untrusted_Inr:
  fixes w :: "('t, 'm) world" and E :: "('t, 'm, 'c) artifact_env"
  defines "r \<equiv> rewards w"
  defines "pp \<equiv> perf_path E (rf_index r)" and "tp \<equiv> tree_path E (rf_index r)"
  shows "save_loop E False 0 (artifact_files E w) None Map.empty w = (Inr (pr, out), w') \<longleftrightarrow>
   (\<exists>dm c1 dr c3.
      ser_perf E (rf_perf_file r) = Inr dm \<and> pp \<notin> unwritable (fs w) \<and>
      ipfs_cid E dm (go_base pp) = Inr c1 \<and>
      ser_rewards E (set_minipool_performance_file_cid ''---'' r) = Inr dr \<and>
      tp \<notin> unwritable (fs w) \<and> ipfs_cid E dr (go_base tp) = Inr c3 \<and>
      pr = None \<and> out = [go_base pp \<mapsto> c1, go_base tp \<mapsto> c3] \<and>
      w' = w\<lparr>rewards := set_minipool_performance_file_cid ''---'' r,
             fs := fs_put tp dr (fs_put pp dm (fs w))\<rparr>)"
  unfolding assms
  by (auto simp: save_unfold set_minipool_performance_file_cid_def
      split: sum.splits prod.splits option.splits if_splits)

lemma rewards_tree_ipfs_extension_ne [simp]: "rewards_tree_ipfs_extension \<noteq> []"
  by (simp add: rewards_tree_ipfs_extension_def)

lemmas ex_run_simps = ex_env_def ex_world_def save_unfold rewards_tree_ipfs_extension_def
  go_base_def strip_trailing_seps_def last_element_def is_sep_def
  set_minipool_performance_file_cid_def

lemma ex_trusted_run:
  "save_json_artifacts ex_env True ex_world =
     (Ok (''tree.json.zst/*'',
          [''perf.json'' \<mapsto> ''perf.json/**'', ''perf.json.zst'' \<mapsto> ''perf.json.zst/*'',
           ''tree.json'' \<mapsto> ''tree.json/****************'', ''tree.json.zst'' \<mapsto> ''tree.json.zst/*'']),
      snd (save_json_artifacts ex_env True ex_world))"
  by (simp add: ex_run_simps numeral_eq_Suc)

section \<open>Properties of the orchestrator\<close>

text \<open>
  C1. On a successful trusted run, the rewards file persisted at its plain path is the
  serialisation of the rewards object whose \<open>MinipoolPerformanceFileCID\<close> is the
  string form of the identifier computed over the compressed performance file (under
  the compressed file's name).
\<close>

theorem trusted_rewards_embeds_compressed_perf_cid:
  assumes "save_json_artifacts E True w = (Ok (p, out), w')"
  shows "\<exists>dm c dr. ser_perf E (rf_perf_file (rewards w)) = Inr dm
     \<and> ipfs_cid E (zstd_encode E dm)
          (go_base (perf_path E (rf_index (rewards w)) @ rewards_tree_ipfs_extension)) = Inr c
     \<and> rf_perf_cid (rewards w') = cid_string E c
     \<and> ser_rewards E (rewards w') = Inr dr
     \<and> files (fs w') (tree_path E (rf_index (rewards w))) = Some dr"
  using assms
  by (auto simp: save_json_artifacts_trusted_Ok set_minipool_performance_file_cid_def)

theorem trusted_rewards_embeds_compressed_perf_cid_witness:
  "\<exists>p out w'. save_json_artifacts ex_env True ex_world = (Ok (p, out), w')
     \<and> rf_perf_cid (rewards w') = ''perf.json.zst/*''
     \<and> (\<exists>dm c dr. ser_perf ex_env (rf_perf_file (rewards ex_world)) = Inr dm
       \<and> ipfs_cid ex_env (zstd_encode ex_env dm)
            (go_base (perf_path ex_env (rf_index (rewards ex_world)) @ rewards_tree_ipfs_extension)) = Inr c
       \<and> rf_perf_cid (rewards w') = cid_string ex_env c
       \<and> ser_rewards ex_env (rewards w') = Inr dr
       \<and> files (fs w') (tree_path ex_env (rf_index (rewards ex_world))) = Some dr)"
proof -
  let ?w' = "snd (save_json_artifacts ex_env True ex_world)"
  note run = ex_trusted_run
  have "rf_perf_cid (rewards ?w') = ''perf.json.zst/*''"
    by (simp add: ex_run_simps)
  with run trusted_rewards_embeds_compressed_perf_cid [OF run] show ?thesis
    by blast
qed

text \<open>
  C2. An untrusted run that gets past both plain writes writes exactly the two plain
  files, performance file first, and the rewards file it writes embeds the sentinel
  \<open>"---"\<close>, whatever the field held before; no compressed file is written.
\<close>

theorem untrusted_writes_plain_files_with_sentinel:
  assumes "save_json_artifacts E False w = (Panic msg, w')"
  shows "\<exists>dm dr. ser_perf E (rf_perf_file (rewards w)) = Inr dm
     \<and> ser_rewards E (set_minipool_performance_file_cid ''---'' (rewards w)) = Inr dr
     \<and> rf_perf_cid (rewards w') = ''---''
     \<and> wlog (fs w') = wlog (fs w) @ [(perf_path E (rf_index (rewards w)), dm),
                                      (tree_path E (rf_index (rewards w)), dr)]"
proof -
  obtain pr out w'' where loop: "save_loop E False 0 (artifact_files E w) None Map.empty w = (Inr (pr, out), w'')"
    and w'': "w'' = w'"
    using assms by (auto simp: save_json_artifacts_def split: sum.splits prod.splits option.splits)
  then show ?thesis
    by (auto simp: save_loop_untrusted_Inr set_minipool_performance_file_cid_def)
qed

theorem untrusted_writes_plain_files_with_sentinel_witness:
  "\<exists>msg w'. save_json_artifacts ex_env False ex_world = (Panic msg, w')
     \<and> (\<exists>dm dr. ser_perf ex_env (rf_perf_file (rewards ex_world)) = Inr dm
       \<and> ser_rewards ex_env (set_minipool_performance_file_cid ''---'' (rewards ex_world)) = Inr dr
       \<and> rf_perf_cid (rewards w') = ''---''
       \<and> wlog (fs w') = wlog (fs ex_world) @ [(perf_path ex_env (rf_index (rewards ex_world)), dm),
                                           (tree_path ex_env (rf_index (rewards ex_world)), dr)])"
proof -
  have run: "save_json_artifacts ex_env False ex_world =
      (Panic ''invalid memory address or nil pointer dereference'', snd (save_json_artifacts ex_env False ex_world))"
    by (simp add: ex_run_simps)
  from run untrusted_writes_plain_files_with_sentinel [OF run] show ?thesis
    by blast
qed

text \<open>
  C3. A successful trusted run writes four files in this order: the plain performance
  file, its compressed copy, the plain rewards file, its compressed copy; each
  compressed copy is the compression of the plain bytes written just before it, and the
  plain rewards bytes are the serialisation of the rewards object as the run leaves it.
\<close>

theorem trusted_write_order:
  assumes "save_json_artifacts E True w = (Ok (p, out), w')"
  shows "\<exists>dm dr. ser_perf E (rf_perf_file (rewards w)) = Inr dm
     \<and> ser_rewards E (rewards w') = Inr dr
     \<and> wlog (fs w') = wlog (fs w) @
          [(perf_path E (rf_index (rewards w)), dm),
           (perf_path E (rf_index (rewards w)) @ rewards_tree_ipfs_extension, zstd_encode E dm),
           (tree_path E (rf_index (rewards w)), dr),
           (tree_path E (rf_index (rewards w)) @ rewards_tree_ipfs_extension, zstd_encode E dr)]"
  using assms by (auto simp: save_json_artifacts_trusted_Ok)

theorem trusted_write_order_witness:
  "\<exists>p out w'. save_json_artifacts ex_env True ex_world = (Ok (p, out), w')
     \<and> (\<exists>dm dr. ser_perf ex_env (rf_perf_file (rewards ex_world)) = Inr dm
       \<and> ser_rewards ex_env (rewards w') = Inr dr
       \<and> wlog (fs w') = wlog (fs ex_world) @
          [(perf_path ex_env (rf_index (rewards ex_world)), dm),
           (perf_path ex_env (rf_index (rewards ex_world)) @ rewards_tree_ipfs_extension, zstd_encode ex_env dm),
           (tree_path ex_env (rf_index (rewards ex_world)), dr),
           (tree_path ex_env (rf_index (rewards ex_world)) @ rewards_tree_ipfs_extension, zstd_encode ex_env dr)])"
  using ex_trusted_run trusted_write_order [OF ex_trusted_run] by blast

text \<open>
  C4. An untrusted run never returns normally: \<open>primaryCid\<close> is only assigned in the
  trusted branch, so the final \<open>*primaryCid\<close> dereferences nil unless an error
  returned first.
\<close>

theorem untrusted_run_never_returns:
  "(\<exists>e. fst (save_json_artifacts E False w) = Fail e)
   \<or> fst (save_json_artifacts E False w) = Panic ''invalid memory address or nil pointer dereference''"
proof (cases "save_loop E False 0 (artifact_files E w) None Map.empty w")
  case (Pair r w')
  show ?thesis
  proof (cases r)
    case (Inl e)
    with Pair show ?thesis by (simp add: save_json_artifacts_def)
  next
    case (Inr acc)
    obtain pr out where acc: "acc = (pr, out)" by (cases acc)
    with Inr Pair have "pr = None" by (auto dest: save_loop_untrusted_primary)
    with Pair Inr acc show ?thesis by (simp add: save_json_artifacts_def)
  qed
qed

text \<open>
  C5. The identifier a successful trusted run returns as primary is the CID of the
  compressed rewards file (computed over the compressed bytes under its \<open>.zst\<close>
  name), recorded in the map under that name; it is not the plain rewards file's CID.
\<close>

theorem trusted_primary_is_compressed_rewards_cid:
  assumes "save_json_artifacts E True w = (Ok (p, out), w')"
  shows "\<exists>dr. ser_rewards E (rewards w') = Inr dr
     \<and> ipfs_cid E (zstd_encode E dr)
          (go_base (tree_path E (rf_index (rewards w)) @ rewards_tree_ipfs_extension)) = Inr p
     \<and> out (go_base (tree_path E (rf_index (rewards w)) @ rewards_tree_ipfs_extension)) = Some p"
  using assms by (auto simp: save_json_artifacts_trusted_Ok)

theorem trusted_primary_is_compressed_rewards_cid_witness:
  "\<exists>p out w'. save_json_artifacts ex_env True ex_world = (Ok (p, out), w')
     \<and> out ''tree.json'' \<noteq> Some p
     \<and> (\<exists>dr. ser_rewards ex_env (rewards w') = Inr dr
       \<and> ipfs_cid ex_env (zstd_encode ex_env dr)
            (go_base (tree_path ex_env (rf_index (rewards ex_world)) @ rewards_tree_ipfs_extension)) = Inr p
       \<and> out (go_base (tree_path ex_env (rf_index (rewards ex_world)) @ rewards_tree_ipfs_extension)) = Some p)"
proof -
  have "[''perf.json'' \<mapsto> ''perf.json/**'', ''perf.json.zst'' \<mapsto> ''perf.json.zst/*'',
         ''tree.json'' \<mapsto> ''tree.json/****************'', ''tree.json.zst'' \<mapsto> ''tree.json.zst/*'']
        ''tree.json'' \<noteq> Some ''tree.json.zst/*''"
    by simp
  with ex_trusted_run trusted_primary_is_compressed_rewards_cid [OF ex_trusted_run] show ?thesis
    by blast
qed

text \<open>
  C6. The value the \<open>MinipoolPerformanceFileCID\<close> field holds when
  \<open>saveJSONArtifacts\<close> is called never reaches the disk or the result: runs that differ
  only in that field return the same outcome and leave the same file system. The field
  is always overwritten, with the sentinel or the compressed CID, before the rewards
  object is first serialised.
\<close>

theorem stale_perf_cid_is_overwritten:
  "fst (save_json_artifacts E t (w\<lparr>rewards := set_minipool_performance_file_cid s (rewards w)\<rparr>))
     = fst (save_json_artifacts E t w)
   \<and> fs (snd (save_json_artifacts E t (w\<lparr>rewards := set_minipool_performance_file_cid s (rewards w)\<rparr>)))
     = fs (snd (save_json_artifacts E t w))"
  by (cases t)
    (simp_all add: save_unfold set_minipool_performance_file_cid_def split: sum.split prod.split)

text \<open>
  C7. A trusted run returns normally when the collaborators do not fail: the
  performance file serialises, every rewards object serialises, every CID calculation
  succeeds and none of the four paths is unwritable.
\<close>

theorem trusted_run_succeeds:
  assumes "ser_perf E (rf_perf_file (rewards w)) = Inr dm"
    and "\<forall>r. \<exists>d. ser_rewards E r = Inr d"
    and "\<forall>b n. \<exists>c. ipfs_cid E b n = Inr c"
    and "set [perf_path E (rf_index (rewards w)),
              perf_path E (rf_index (rewards w)) @ rewards_tree_ipfs_extension,
              tree_path E (rf_index (rewards w)),
              tree_path E (rf_index (rewards w)) @ rewards_tree_ipfs_extension] \<inter> unwritable (fs w) = {}"
  shows "\<exists>p out w'. save_json_artifacts E True w = (Ok (p, out), w')"
proof -
  let ?pp = "perf_path E (rf_index (rewards w))" and ?tp = "tree_path E (rf_index (rewards w))"
  let ?x = rewards_tree_ipfs_extension
  obtain c1 where c1: "ipfs_cid E dm (go_base ?pp) = Inr c1" using assms(3) by blast
  obtain c2 where c2: "ipfs_cid E (zstd_encode E dm) (go_base (?pp @ ?x)) = Inr c2" using assms(3) by blast
  obtain dr where dr: "ser_rewards E (set_minipool_performance_file_cid (cid_string E c2) (rewards w)) = Inr dr"
    using assms(2) by blast
  obtain c3 where c3: "ipfs_cid E dr (go_base ?tp) = Inr c3" using assms(3) by blast
  obtain p where p: "ipfs_cid E (zstd_encode E dr) (go_base (?tp @ ?x)) = Inr p" using assms(3) by blast
  show ?thesis
    using assms(1,4) c1 c2 dr c3 p by (simp add: save_json_artifacts_trusted_Ok)
qed

theorem trusted_run_succeeds_witness:
  "\<exists>p out w'. save_json_artifacts ex_env True ex_world = (Ok (p, out), w')"
proof (rule trusted_run_succeeds)
  show "ser_perf ex_env (rf_perf_file (rewards ex_world)) = Inr [7, 7]"
    by (simp add: ex_run_simps numeral_eq_Suc)
  show "\<forall>r. \<exists>d. ser_rewards ex_env r = Inr d" by (simp add: ex_env_def)
  show "\<forall>b n. \<exists>c. ipfs_cid ex_env b n = Inr c" by (simp add: ex_env_def)
  show "set [perf_path ex_env (rf_index (rewards ex_world)),
             perf_path ex_env (rf_index (rewards ex_world)) @ rewards_tree_ipfs_extension,
             tree_path ex_env (rf_index (rewards ex_world)),
             tree_path ex_env (rf_index (rewards ex_world)) @ rewards_tree_ipfs_extension]
        \<inter> unwritable (fs ex_world) = {}"
    by (simp add: ex_run_simps)
qed


text \<open>
  C8. When the performance file cannot be written, the run aborts before anything else:
  the error names the performance path twice (the loop's and \<open>Write\<close>'s wrapping of
  the \<open>PathError\<close>), nothing is written and the rewards object is untouched.
\<close>

theorem perf_write_failure_aborts:
  assumes "ser_perf E (rf_perf_file (rewards w)) = Inr d"
    and "perf_path E (rf_index (rewards w)) \<in> unwritable (fs w)"
  shows "save_json_artifacts E t w =
     (Fail (Wrap (''error saving '' @ perf_path E (rf_index (rewards w)))
             (Wrap (''error writing file to '' @ perf_path E (rf_index (rewards w)))
               (PathError ''open'' (perf_path E (rf_index (rewards w)))))), w)"
  using assms by (simp add: save_unfold)

theorem perf_write_failure_aborts_witness:
  "save_json_artifacts ex_env True (ex_world\<lparr>fs := (fs ex_world)\<lparr>unwritable := {''rp/perf.json''}\<rparr>\<rparr>) =
     (Fail (Wrap ''error saving rp/perf.json'' (Wrap ''error writing file to rp/perf.json''
        (PathError ''open'' ''rp/perf.json''))),
      ex_world\<lparr>fs := (fs ex_world)\<lparr>unwritable := {''rp/perf.json''}\<rparr>\<rparr>)"
  using perf_write_failure_aborts [of ex_env "ex_world\<lparr>fs := (fs ex_world)\<lparr>unwritable := {''rp/perf.json''}\<rparr>\<rparr>"]
  by (simp add: ex_run_simps numeral_eq_Suc)

end
