(* ===== verification/GoStrings.thy ===== *)
theory GoStrings
  imports Prelude
begin

text \<open>
  The Go standard-library string functions the command-line validators of
  \<open>src/shared/utils/cli/validation.go\<close> call, on Go's byte strings (Isabelle's
  \<open>string\<close>, one \<open>char\<close> per byte): \<open>strings.ToLower\<close> as far as the validators
  can observe it, \<open>strconv.ParseUint(s, 10, 64)\<close>, \<open>big.Int.SetString(s, 10)\<close> and
  \<open>big.Int.String()\<close>, decimal formatting (\<open>%d\<close>), and \<open>strings.TrimSpace\<close> with
  Unicode white space in UTF-8. Each comes with the lemmas the validators' proofs use:
  decimal printing and parsing are inverse, trimming is idempotent and leaves no white
  space at either end.
\<close>

section \<open>Characters\<close>

definition byte_of :: "char \<Rightarrow> nat" where
  "byte_of c = of_char c"

definition is_digit :: "char \<Rightarrow> bool" where
  "is_digit c \<longleftrightarrow> 48 \<le> byte_of c \<and> byte_of c \<le> 57"

definition digit_val :: "char \<Rightarrow> nat" where
  "digit_val c = byte_of c - 48"

definition digit_char :: "nat \<Rightarrow> char" where
  "digit_char d = char_of (48 + d)"

text \<open>
  \<open>strings.ToLower\<close> maps every rune to \<open>unicode.ToLower\<close>. The validators only
  compare its result with ASCII words and return it when it is one of them. The only
  non-ASCII runes whose lower case is ASCII are U+0130 (to \<open>i\<close>) and U+212A (to
  \<open>k\<close>), and none of the words (\<open>true\<close>, \<open>yes\<close>, \<open>false\<close>, \<open>no\<close>, \<open>eth\<close>,
  \<open>rpl\<close>, \<open>fsrpl\<close>, \<open>neth\<close>, \<open>reth\<close>) contains \<open>i\<close> or \<open>k\<close>; a string with any
  other non-ASCII byte lowers to a non-ASCII string. So lowering the ASCII capitals and
  leaving every other byte as it is decides the same comparisons.
\<close>

definition ascii_lower :: "char \<Rightarrow> char" where
  "ascii_lower c = (if 65 \<le> byte_of c \<and> byte_of c \<le> 90 then char_of (byte_of c + 32) else c)"

definition go_to_lower :: "string \<Rightarrow> string" where
  "go_to_lower s = map ascii_lower s"

section \<open>Decimal numbers\<close>

definition dec_val :: "string \<Rightarrow> nat" where
  "dec_val s = foldl (\<lambda>n c. 10 * n + digit_val c) 0 s"

fun dec_string :: "nat \<Rightarrow> string" where
  "dec_string n = (if n < 10 then [digit_char n] else dec_string (n div 10) @ [digit_char (n mod 10)])"

declare dec_string.simps [simp del]

text \<open>
  \<open>strconv.ParseUint(s, 10, 64)\<close>: an explicit base 10 admits no sign, prefix or
  underscore; the string must be non-empty, all decimal digits, and its value below
  \<open>2^64\<close> (a larger value is a range error). Both kinds of error are \<open>None\<close>.
\<close>

definition parse_uint64 :: "string \<Rightarrow> 64 word option" where
  "parse_uint64 s =
     (if s \<noteq> [] \<and> list_all is_digit s \<and> dec_val s < 2 ^ 64 then Some (word_of_nat (dec_val s)) else None)"

text \<open>
  \<open>new(big.Int).SetString(s, 10)\<close>: an optional sign \<open>+\<close> or \<open>-\<close>, then at least
  one decimal digit, and nothing else (the whole string must be consumed).
\<close>

definition parse_digits :: "string \<Rightarrow> int option" where
  "parse_digits ds = (if ds \<noteq> [] \<and> list_all is_digit ds then Some (int (dec_val ds)) else None)"

definition parse_bigint :: "string \<Rightarrow> int option" where
  "parse_bigint s =
     (case s of
        [] \<Rightarrow> None
      | c # ds \<Rightarrow>
          (if c = CHR ''-'' then map_option uminus (parse_digits ds)
           else if c = CHR ''+'' then parse_digits ds
           else parse_digits s))"

text \<open>\<open>big.Int.String()\<close>: a minus sign for a negative value, then the decimal digits.\<close>

definition int_string :: "int \<Rightarrow> string" where
  "int_string i = (if i < 0 then CHR ''-'' # dec_string (nat (- i)) else dec_string (nat i))"

section \<open>White space\<close>

text \<open>
  \<open>unicode.IsSpace\<close>: \<open>'\t'\<close>, \<open>'\n'\<close>, \<open>'\v'\<close>, \<open>'\f'\<close>, \<open>'\r'\<close>, \<open>' '\<close>,
  U+0085, U+00A0, and the other runes of the White_Space property: U+1680, U+2000 to
  U+200A, U+2028, U+2029, U+202F, U+205F, U+3000. Here are their UTF-8 encodings.
\<close>

definition space_runes :: "string list" where
  "space_runes =
     [[CHR 0x09], [CHR 0x0A], [CHR 0x0B], [CHR 0x0C], [CHR 0x0D], [CHR 0x20],
      [CHR 0xC2, CHR 0x85], [CHR 0xC2, CHR 0xA0], [CHR 0xE1, CHR 0x9A, CHR 0x80]]
     @ map (\<lambda>b. [CHR 0xE2, CHR 0x80, char_of b]) [0x80::nat ..< 0x8B]
     @ [[CHR 0xE2, CHR 0x80, CHR 0xA8], [CHR 0xE2, CHR 0x80, CHR 0xA9],
        [CHR 0xE2, CHR 0x80, CHR 0xAF], [CHR 0xE2, CHR 0x81, CHR 0x9F],
        [CHR 0xE3, CHR 0x80, CHR 0x80]]"

text \<open>
  \<open>strings.TrimSpace\<close> removes the white-space runes at both ends: from the front it
  decodes rune after rune (\<open>TrimLeftFunc\<close>), from the back \<open>DecodeLastRuneInString\<close>
  (\<open>TrimRightFunc\<close>); its ASCII fast path gives the same result. A rune decodes to one
  of the white-space runes exactly when the bytes at that end are its encoding: every
  encoding above starts with a byte that is no continuation byte, so the backward scan
  for the start of the last rune stops at the encoding's first byte.
\<close>

definition space_prefix_len :: "string \<Rightarrow> nat" where
  "space_prefix_len s =
     (case find (\<lambda>e. take (length e) s = e) space_runes of None \<Rightarrow> 0 | Some e \<Rightarrow> length e)"

definition space_suffix_len :: "string \<Rightarrow> nat" where
  "space_suffix_len s =
     (case find (\<lambda>e. drop (length s - length e) s = e) space_runes of None \<Rightarrow> 0 | Some e \<Rightarrow> length e)"

lemma space_runes_nonempty: "e \<in> set space_runes \<Longrightarrow> e \<noteq> []"
  by (auto simp: space_runes_def)

lemma space_prefix_len_pos: "0 < space_prefix_len s \<Longrightarrow> s \<noteq> []"
  by (auto simp: space_prefix_len_def find_Some_iff dest!: nth_mem space_runes_nonempty split: option.splits)

lemma space_suffix_len_pos: "0 < space_suffix_len s \<Longrightarrow> s \<noteq> []"
proof -
  assume nz: "0 < space_suffix_len s"
  then obtain e where e: "e \<in> set space_runes" and m: "drop (length s - length e) s = e"
    and len: "space_suffix_len s = length e"
    by (auto simp: space_suffix_len_def find_Some_iff dest!: nth_mem split: option.splits)
  from e have "e \<noteq> []" by (rule space_runes_nonempty)
  with m have "length e \<le> length s" by (metis diff_le_self length_drop)
  with \<open>e \<noteq> []\<close> show ?thesis by auto
qed

lemma space_prefix_len_less: "0 < space_prefix_len s \<Longrightarrow> length s - space_prefix_len s < length s"
  using space_prefix_len_pos [of s] by simp

lemma space_suffix_len_less: "0 < space_suffix_len s \<Longrightarrow> length s - space_suffix_len s < length s"
  using space_suffix_len_pos [of s] by simp

function trim_left_space :: "string \<Rightarrow> string" where
  "trim_left_space s =
     (if space_prefix_len s = 0 then s else trim_left_space (drop (space_prefix_len s) s))"
  by pat_completeness auto
termination
  by (relation "measure length") (auto intro: space_prefix_len_less)

function trim_right_space :: "string \<Rightarrow> string" where
  "trim_right_space s =
     (if space_suffix_len s = 0 then s else trim_right_space (take (length s - space_suffix_len s) s))"
  by pat_completeness auto
termination
  by (relation "measure length") (auto intro: space_suffix_len_less)

declare trim_left_space.simps [simp del] trim_right_space.simps [simp del]

definition go_trim_space :: "string \<Rightarrow> string" where
  "go_trim_space s = trim_right_space (trim_left_space s)"


section \<open>Lemmas\<close>

subsection \<open>Decimal numbers\<close>

lemma digit_char_is_digit [simp]: "d < 10 \<Longrightarrow> is_digit (digit_char d)"
  by (simp add: digit_char_def is_digit_def byte_of_def)

lemma digit_val_digit_char [simp]: "d < 10 \<Longrightarrow> digit_val (digit_char d) = d"
  by (simp add: digit_char_def digit_val_def byte_of_def)

lemma dec_val_single [simp]: "dec_val [c] = digit_val c"
  by (simp add: dec_val_def)

lemma dec_val_snoc [simp]: "dec_val (s @ [c]) = 10 * dec_val s + digit_val c"
  by (simp add: dec_val_def)

lemma dec_string_small: "n < 10 \<Longrightarrow> dec_string n = [digit_char n]"
  by (subst dec_string.simps) simp

lemma dec_string_step: "\<not> n < 10 \<Longrightarrow> dec_string n = dec_string (n div 10) @ [digit_char (n mod 10)]"
  by (subst dec_string.simps) simp

lemma dec_string_nonempty [simp]: "dec_string n \<noteq> []"
  by (subst dec_string.simps) simp

lemma dec_string_digits: "list_all is_digit (dec_string n)"
proof (induction n rule: dec_string.induct)
  case (1 n)
  then show ?case by (subst dec_string.simps) auto
qed

lemma dec_val_dec_string [simp]: "dec_val (dec_string n) = n"
proof (induction n rule: dec_string.induct)
  case (1 n)
  then show ?case by (subst dec_string.simps) auto
qed

lemma parse_digits_dec_string [simp]: "parse_digits (dec_string n) = Some (int n)"
  by (simp add: parse_digits_def dec_string_digits)

lemma dec_string_hd_not_sign: "hd (dec_string n) \<noteq> CHR ''-'' \<and> hd (dec_string n) \<noteq> CHR ''+''"
proof -
  have "is_digit (hd (dec_string n))"
    using dec_string_digits [of n] by (cases "dec_string n") auto
  then show ?thesis by (auto simp: is_digit_def byte_of_def)
qed

lemma parse_bigint_int_string [simp]: "parse_bigint (int_string i) = Some i"
proof (cases "i < 0")
  case True
  then show ?thesis by (simp add: parse_bigint_def int_string_def)
next
  case False
  obtain c ds where cds: "dec_string (nat i) = c # ds"
    by (cases "dec_string (nat i)") auto
  with dec_string_hd_not_sign [of "nat i"] have "c \<noteq> CHR ''-'' \<and> c \<noteq> CHR ''+''" by simp
  with False cds show ?thesis
    by (simp add: parse_bigint_def int_string_def) (metis parse_digits_dec_string nat_0_le not_less)
qed

lemma int_string_inj: "int_string i = int_string j \<Longrightarrow> i = j"
  by (metis option.inject parse_bigint_int_string)

subsection \<open>White space\<close>

lemma trim_left_space_no_prefix: "space_prefix_len (trim_left_space s) = 0"
proof (induction s rule: trim_left_space.induct)
  case (1 s)
  then show ?case by (subst trim_left_space.simps) simp
qed

lemma trim_right_space_no_suffix: "space_suffix_len (trim_right_space s) = 0"
proof (induction s rule: trim_right_space.induct)
  case (1 s)
  then show ?case by (subst trim_right_space.simps) simp
qed

lemma trim_left_space_id: "space_prefix_len s = 0 \<Longrightarrow> trim_left_space s = s"
  by (subst trim_left_space.simps) simp

lemma trim_right_space_id: "space_suffix_len s = 0 \<Longrightarrow> trim_right_space s = s"
  by (subst trim_right_space.simps) simp

lemma trim_right_space_prefix: "\<exists>t. s = trim_right_space s @ t"
proof (induction s rule: trim_right_space.induct)
  case (1 s)
  show ?case
  proof (cases "space_suffix_len s = 0")
    case True
    then show ?thesis by (simp add: trim_right_space_id)
  next
    case False
    with "1.IH" obtain t where
      t: "take (length s - space_suffix_len s) s
          = trim_right_space (take (length s - space_suffix_len s) s) @ t"
      by blast
    have "s = take (length s - space_suffix_len s) s @ drop (length s - space_suffix_len s) s"
      by simp
    with t False show ?thesis
      by (subst trim_right_space.simps) (metis append_assoc)
  qed
qed

lemma trim_left_space_suffix: "\<exists>t. s = t @ trim_left_space s"
proof (induction s rule: trim_left_space.induct)
  case (1 s)
  show ?case
  proof (cases "space_prefix_len s = 0")
    case True
    then show ?thesis by (simp add: trim_left_space_id)
  next
    case False
    let ?k = "space_prefix_len s"
    from "1.IH" False obtain t where t: "drop ?k s = t @ trim_left_space (drop ?k s)"
      by blast
    have eq: "trim_left_space s = trim_left_space (drop ?k s)"
      using False by (subst trim_left_space.simps) simp
    have "s = (take ?k s @ t) @ trim_left_space s"
      using t eq by (metis append_assoc append_take_drop_id)
    then show ?thesis by blast
  qed
qed

text \<open>Cutting off the end of a string with no white-space rune at its front leaves none.\<close>

lemma space_prefix_len_prefix:
  assumes "space_prefix_len (u @ t) = 0"
  shows "space_prefix_len u = 0"
proof (rule ccontr)
  assume "space_prefix_len u \<noteq> 0"
  then obtain e where e: "e \<in> set space_runes" and m: "take (length e) u = e"
    by (auto simp: space_prefix_len_def find_Some_iff dest!: nth_mem split: option.splits)
  then have "length e \<le> length u" by (cases "length e \<le> length u") auto
  with m have "take (length e) (u @ t) = e" by simp
  with e have "find (\<lambda>e. take (length e) (u @ t) = e) space_runes \<noteq> None"
    by (simp add: find_None_iff) blast
  moreover have "\<And>e. find (\<lambda>e. take (length e) (u @ t) = e) space_runes = Some e \<Longrightarrow> e \<noteq> []"
    by (auto simp: find_Some_iff dest!: nth_mem space_runes_nonempty)
  ultimately show False
    using assms by (auto simp: space_prefix_len_def split: option.splits)
qed

lemma go_trim_space_no_prefix: "space_prefix_len (go_trim_space s) = 0"
proof -
  obtain t where "trim_left_space s = go_trim_space s @ t"
    using trim_right_space_prefix [of "trim_left_space s"] by (auto simp: go_trim_space_def)
  then show ?thesis
    using trim_left_space_no_prefix [of s] space_prefix_len_prefix by metis
qed

lemma go_trim_space_no_suffix: "space_suffix_len (go_trim_space s) = 0"
  by (simp add: go_trim_space_def trim_right_space_no_suffix)

lemma go_trim_space_idem: "go_trim_space (go_trim_space s) = go_trim_space s"
proof -
  have "trim_left_space (go_trim_space s) = go_trim_space s"
    by (rule trim_left_space_id) (rule go_trim_space_no_prefix)
  moreover have "trim_right_space (go_trim_space s) = go_trim_space s"
    by (rule trim_right_space_id) (rule go_trim_space_no_suffix)
  ultimately show ?thesis
    by (simp only: go_trim_space_def [of "go_trim_space s"])
qed

lemma go_trim_space_infix: "\<exists>u v. s = u @ go_trim_space s @ v"
proof -
  obtain u where u: "s = u @ trim_left_space s" using trim_left_space_suffix by blast
  obtain v where v: "trim_left_space s = trim_right_space (trim_left_space s) @ v"
    using trim_right_space_prefix by blast
  from u v show ?thesis by (metis append_assoc go_trim_space_def)
qed

lemma trim_left_space_stop: "space_prefix_len s = 0 \<Longrightarrow> trim_left_space s = s"
  by (subst trim_left_space.simps) simp

lemma trim_left_space_drop: "space_prefix_len s = k \<Longrightarrow> 0 < k \<Longrightarrow> trim_left_space s = trim_left_space (drop k s)"
  by (subst trim_left_space.simps) simp

lemma trim_right_space_stop: "space_suffix_len s = 0 \<Longrightarrow> trim_right_space s = s"
  by (subst trim_right_space.simps) simp

lemma trim_right_space_take: "space_suffix_len s = k \<Longrightarrow> 0 < k \<Longrightarrow> trim_right_space s = trim_right_space (take (length s - k) s)"
  by (subst trim_right_space.simps) simp

end
