(* ===== verification/Validation.thy ===== *)
theory Validation
  imports GoStrings
begin

text \<open>
  The command-line validators of \<open>src/shared/utils/cli/validation.go\<close>. Each
  \<open>ValidateX(name, value)\<close> returns the parsed value or an error whose message the
  model spells out as Go formats it; the model returns \<open>Inl msg\<close> for the error (the
  zero value Go returns beside it is not part of the model) and \<open>Inr v\<close> otherwise.
  The two regular expressions are modelled twice: as the language the pattern denotes
  (\<open>email_regex\<close>, \<open>tz_regex\<close>) and as an executable matcher (\<open>email_match\<close>,
  \<open>tz_match\<close>), with a theorem that the two agree.
\<close>

section \<open>Messages\<close>

definition sq :: "string \<Rightarrow> string" where
  "sq v = CHR 0x27 # v @ [CHR 0x27]"

definition invalid :: "string \<Rightarrow> string \<Rightarrow> string" where
  "invalid name v = ''Invalid '' @ name @ '' '' @ sq v"

section \<open>General types\<close>

definition validate_arg_count :: "string list \<Rightarrow> nat \<Rightarrow> string \<Rightarrow> string option" where
  "validate_arg_count args count usage_text =
     (if length args \<noteq> count then Some (''Incorrect argument count; usage: '' @ usage_text) else None)"

definition validate_bool :: "string \<Rightarrow> string \<Rightarrow> string + bool" where
  "validate_bool name value =
     (let val = go_to_lower value in
      if \<not> (val = ''true'' \<or> val = ''yes'' \<or> val = ''false'' \<or> val = ''no'')
      then Inl (invalid name value @ '' - valid values are '' @ sq ''true'' @ '', '' @ sq ''yes'' @ '', ''
                @ sq ''false'' @ '' and '' @ sq ''no'')
      else if val = ''true'' \<or> val = ''yes'' then Inr True else Inr False)"

definition validate_uint :: "string \<Rightarrow> string \<Rightarrow> string + 64 word" where
  "validate_uint name value =
     (case parse_uint64 value of None \<Rightarrow> Inl (invalid name value) | Some v \<Rightarrow> Inr v)"

definition validate_wei_amount :: "string \<Rightarrow> string \<Rightarrow> string + int" where
  "validate_wei_amount name value =
     (case parse_bigint value of None \<Rightarrow> Inl (invalid name value) | Some v \<Rightarrow> Inr v)"

definition validate_token_type :: "string \<Rightarrow> string \<Rightarrow> string + string" where
  "validate_token_type name value =
     (let val = go_to_lower value in
      if \<not> (val = ''eth'' \<or> val = ''rpl'' \<or> val = ''fsrpl'' \<or> val = ''neth'' \<or> val = ''reth'')
      then Inl (invalid name value @ '' - valid types are '' @ sq ''ETH'' @ '', '' @ sq ''RPL'' @ '', ''
                @ sq ''fsRPL'' @ '', '' @ sq ''nETH'' @ '' and '' @ sq ''rETH'')
      else Inr val)"

section \<open>Command specific types\<close>

definition validate_positive_wei_amount :: "string \<Rightarrow> string \<Rightarrow> string + int" where
  "validate_positive_wei_amount name value =
     (case validate_wei_amount name value of
        Inl e \<Rightarrow> Inl e
      | Inr val \<Rightarrow>
          (if val \<le> 0 then Inl (invalid name value @ '' - must be greater than 0'') else Inr val))"

definition ether_zeros :: string where
  "ether_zeros = replicate 18 CHR ''0''"

definition validate_deposit_wei_amount :: "string \<Rightarrow> string \<Rightarrow> string + int" where
  "validate_deposit_wei_amount name value =
     (case validate_wei_amount name value of
        Inl e \<Rightarrow> Inl e
      | Inr val \<Rightarrow>
          (if \<not> (int_string val = ''0'' \<or> int_string val = ''16'' @ ether_zeros
                 \<or> int_string val = ''32'' @ ether_zeros)
           then Inl (invalid name value @ '' - valid values are 0, 16 and 32 ether'')
           else Inr val))"

definition validate_burnable_token_type :: "string \<Rightarrow> string \<Rightarrow> string + string" where
  "validate_burnable_token_type name value =
     (let val = go_to_lower value in
      if \<not> (val = ''neth'' \<or> val = ''reth'')
      then Inl (invalid name value @ '' - valid types are '' @ sq ''nETH'' @ '' and '' @ sq ''rETH'')
      else Inr val)"

text \<open>
  \<open>passwords.MinPasswordLength\<close> is a constant of a package outside \<open>src/\<close>; the
  model takes it as the first argument.
\<close>

definition validate_node_password :: "nat \<Rightarrow> string \<Rightarrow> string \<Rightarrow> string + string" where
  "validate_node_password min_password_length name value =
     (if length value < min_password_length
      then Inl (invalid name value @ '' - must be at least '' @ dec_string min_password_length
                @ '' characters long'')
      else Inr value)"

subsection \<open>Regular expressions\<close>

text \<open>
  Go's \<open>regexp\<close> (RE2 syntax) matches runes; \<open>\w\<close> is \<open>[0-9A-Za-z_]\<close> and
  \<open>\s\<close> is \<open>[\t\n\f\r ]\<close> (no \<open>\v\<close>). Every ASCII byte is a rune of its own, also
  in invalid UTF-8, and no byte of a multi-byte rune is ASCII, so on bytes \<open>\S\<close>
  matches exactly the strings free of the five space bytes, and the splits at \<open>@\<close>,
  \<open>.\<close> and \<open>/\<close> are the same on bytes and on runes.
\<close>

definition is_re2_space :: "char \<Rightarrow> bool" where
  "is_re2_space c \<longleftrightarrow> c \<in> {CHR 0x09, CHR 0x0A, CHR 0x0C, CHR 0x0D, CHR 0x20}"

definition is_word_char :: "char \<Rightarrow> bool" where
  "is_word_char c \<longleftrightarrow> is_digit c \<or> (65 \<le> byte_of c \<and> byte_of c \<le> 90)
     \<or> (97 \<le> byte_of c \<and> byte_of c \<le> 122) \<or> c = CHR ''_''"

definition nonspace_plus :: "string \<Rightarrow> bool" where
  "nonspace_plus s \<longleftrightarrow> s \<noteq> [] \<and> list_all (\<lambda>c. \<not> is_re2_space c) s"

text \<open>The language of \<open>^\S+@\S+(\.\S+)+$\<close>.\<close>

definition email_regex :: "string \<Rightarrow> bool" where
  "email_regex s \<longleftrightarrow>
     (\<exists>x y ws. s = x @ CHR ''@'' # y @ concat (map (\<lambda>w. CHR ''.'' # w) ws)
        \<and> nonspace_plus x \<and> nonspace_plus y \<and> ws \<noteq> [] \<and> list_all nonspace_plus ws)"

text \<open>
  The matcher: no space byte, an \<open>@\<close> after the first byte, and after the first such
  \<open>@\<close> a dot with at least one byte on each side.
\<close>

definition email_match :: "string \<Rightarrow> bool" where
  "email_match s \<longleftrightarrow>
     list_all (\<lambda>c. \<not> is_re2_space c) s
     \<and> (case s of
          [] \<Rightarrow> False
        | c # cs \<Rightarrow> CHR ''@'' \<in> set cs
            \<and> CHR ''.'' \<in> set (butlast (drop 1 (drop 1 (dropWhile (\<lambda>c. c \<noteq> CHR ''@'') cs)))))"

text \<open>The language of \<open>^\w{2,}\/\w{2,}$\<close>.\<close>

definition tz_regex :: "string \<Rightarrow> bool" where
  "tz_regex s \<longleftrightarrow>
     (\<exists>a b. s = a @ CHR ''/'' # b \<and> 2 \<le> length a \<and> 2 \<le> length b
        \<and> list_all is_word_char a \<and> list_all is_word_char b)"

definition tz_match :: "string \<Rightarrow> bool" where
  "tz_match s \<longleftrightarrow>
     (let a = takeWhile (\<lambda>c. c \<noteq> CHR ''/'') s; b = drop (Suc (length a)) s
      in 2 \<le> length a \<and> length a < length s \<and> 2 \<le> length b
         \<and> list_all is_word_char a \<and> list_all is_word_char b)"

definition validate_timezone_location :: "string \<Rightarrow> string \<Rightarrow> string + string" where
  "validate_timezone_location name value =
     (if \<not> tz_match value
      then Inl (invalid name value @ '' - must be in the format '' @ sq ''Country/City'')
      else Inr value)"

definition min_dao_member_id_length :: nat where
  "min_dao_member_id_length = 3"

definition min_dao_member_email_length :: nat where
  "min_dao_member_email_length = 6"

definition validate_dao_member_id :: "string \<Rightarrow> string \<Rightarrow> string + string" where
  "validate_dao_member_id name value =
     (let val = go_trim_space value in
      if length val < min_dao_member_id_length
      then Inl (invalid name val @ '' - must be at least '' @ dec_string min_dao_member_id_length
                @ '' characters long'')
      else Inr val)"

definition validate_dao_member_email :: "string \<Rightarrow> string \<Rightarrow> string + string" where
  "validate_dao_member_email name value =
     (if length value < min_dao_member_email_length
      then Inl (invalid name value @ '' - must be at least '' @ dec_string min_dao_member_email_length
                @ '' characters long'')
      else if \<not> email_match value
      then Inl (invalid name value @ '' - must be a valid email address'')
      else Inr value)"

section \<open>Lemmas\<close>

subsection \<open>The regular expressions\<close>

lemma word_char_not_slash: "is_word_char c \<Longrightarrow> c \<noteq> CHR ''/''"
  by (auto simp: is_word_char_def is_digit_def byte_of_def)

lemma tz_match_iff_regex: "tz_match s \<longleftrightarrow> tz_regex s"
proof
  assume m: "tz_match s"
  let ?a = "takeWhile (\<lambda>c. c \<noteq> CHR ''/'') s"
  let ?b = "drop (Suc (length ?a)) s"
  from m have lt: "length ?a < length s" by (simp add: tz_match_def Let_def)
  let ?d = "dropWhile (\<lambda>c. c \<noteq> CHR ''/'') s"
  have d: "drop (length ?a) s = ?d" by (simp add: dropWhile_eq_drop)
  have dne: "?d \<noteq> []" using lt d by (metis drop_eq_Nil not_le)
  then have hd: "hd ?d = CHR ''/''" by (metis (mono_tags, lifting) hd_dropWhile)
  have b: "?b = tl ?d" by (simp add: drop_Suc tl_drop d [symmetric])
  have "s = ?a @ ?d" by simp
  also have "?d = hd ?d # tl ?d" using dne by simp
  finally have s: "s = ?a @ CHR ''/'' # ?b" using hd b by simp
  from m s show "tz_regex s"
    unfolding tz_regex_def tz_match_def Let_def by blast
next
  assume "tz_regex s"
  then obtain a b where s: "s = a @ CHR ''/'' # b" and la: "2 \<le> length a" and lb: "2 \<le> length b"
    and wa: "list_all is_word_char a" and wb: "list_all is_word_char b"
    by (auto simp: tz_regex_def)
  from wa have "\<forall>c \<in> set a. c \<noteq> CHR ''/''"
    by (auto simp: list_all_iff dest: word_char_not_slash)
  then have "takeWhile (\<lambda>c. c \<noteq> CHR ''/'') s = a"
    by (simp add: s takeWhile_append2)
  with s la lb wa wb show "tz_match s"
    by (simp add: tz_match_def Let_def)
qed

lemma inner_dot_iff:
  "CHR ''.'' \<in> set (butlast (drop 1 r)) \<longleftrightarrow> (\<exists>y w. r = y @ CHR ''.'' # w \<and> y \<noteq> [] \<and> w \<noteq> [])"
proof
  assume "CHR ''.'' \<in> set (butlast (drop 1 r))"
  then obtain u v where uv: "butlast (drop 1 r) = u @ CHR ''.'' # v" by (meson split_list)
  then have ne: "drop 1 r \<noteq> []" by auto
  then have r: "r = hd r # drop 1 r" by (cases r) auto
  have "drop 1 r = butlast (drop 1 r) @ [last (drop 1 r)]" using ne by (rule append_butlast_last_id [symmetric])
  with uv r have "r = (hd r # u) @ CHR ''.'' # (v @ [last (drop 1 r)])" by (metis append_Cons append_assoc)
  then show "\<exists>y w. r = y @ CHR ''.'' # w \<and> y \<noteq> [] \<and> w \<noteq> []" by blast
next
  assume "\<exists>y w. r = y @ CHR ''.'' # w \<and> y \<noteq> [] \<and> w \<noteq> []"
  then obtain y w where r: "r = y @ CHR ''.'' # w" and y: "y \<noteq> []" and w: "w \<noteq> []" by blast
  from y have "drop 1 r = tl y @ CHR ''.'' # w" by (cases y) (simp_all add: r)
  with w show "CHR ''.'' \<in> set (butlast (drop 1 r))" by (simp add: butlast_append)
qed

lemma inner_dot_append:
  "(\<exists>y w. r = y @ CHR ''.'' # w \<and> y \<noteq> [] \<and> w \<noteq> [])
   \<Longrightarrow> (\<exists>y w. p @ r = y @ CHR ''.'' # w \<and> y \<noteq> [] \<and> w \<noteq> [])"
  by (metis append.assoc append_is_Nil_conv)

lemma dotted_blocks_iff:
  "(\<exists>y ws. r = y @ concat (map (\<lambda>w. CHR ''.'' # w) ws) \<and> nonspace_plus y \<and> ws \<noteq> []
      \<and> list_all nonspace_plus ws)
   \<longleftrightarrow> list_all (\<lambda>c. \<not> is_re2_space c) r \<and> (\<exists>y w. r = y @ CHR ''.'' # w \<and> y \<noteq> [] \<and> w \<noteq> [])"
  (is "?L \<longleftrightarrow> ?R")
proof
  assume ?L
  then obtain y w1 ws where r: "r = y @ CHR ''.'' # w1 @ concat (map (\<lambda>w. CHR ''.'' # w) ws)"
    and y: "nonspace_plus y" and w1: "nonspace_plus w1" and ws: "list_all nonspace_plus ws"
    by (auto simp: neq_Nil_conv)
  have "list_all (\<lambda>c. \<not> is_re2_space c) (concat (map (\<lambda>w. CHR ''.'' # w) ws))"
    using ws by (induction ws) (auto simp: nonspace_plus_def is_re2_space_def)
  with r y w1 have "list_all (\<lambda>c. \<not> is_re2_space c) r"
    by (auto simp: nonspace_plus_def is_re2_space_def)
  moreover from r y w1 have "\<exists>y w. r = y @ CHR ''.'' # w \<and> y \<noteq> [] \<and> w \<noteq> []"
    by (auto simp: nonspace_plus_def)
  ultimately show ?R by blast
next
  assume ?R
  then obtain y w where r: "r = y @ CHR ''.'' # w" and "y \<noteq> []" and "w \<noteq> []"
    and ns: "list_all (\<lambda>c. \<not> is_re2_space c) r" by blast
  with ns have "r = y @ concat (map (\<lambda>w. CHR ''.'' # w) [w]) \<and> nonspace_plus y \<and> [w] \<noteq> []
      \<and> list_all nonspace_plus [w]"
    by (simp add: nonspace_plus_def)
  then show ?L by blast
qed

lemma email_regex_split:
  "email_regex s \<longleftrightarrow> list_all (\<lambda>c. \<not> is_re2_space c) s
     \<and> (\<exists>x r. s = x @ CHR ''@'' # r \<and> x \<noteq> [] \<and> (\<exists>y w. r = y @ CHR ''.'' # w \<and> y \<noteq> [] \<and> w \<noteq> []))"
proof -
  have "email_regex s \<longleftrightarrow> (\<exists>x r. s = x @ CHR ''@'' # r \<and> nonspace_plus x
      \<and> (\<exists>y ws. r = y @ concat (map (\<lambda>w. CHR ''.'' # w) ws) \<and> nonspace_plus y \<and> ws \<noteq> []
           \<and> list_all nonspace_plus ws))"
    unfolding email_regex_def by blast
  also have "\<dots> \<longleftrightarrow> (\<exists>x r. s = x @ CHR ''@'' # r \<and> nonspace_plus x
      \<and> list_all (\<lambda>c. \<not> is_re2_space c) r \<and> (\<exists>y w. r = y @ CHR ''.'' # w \<and> y \<noteq> [] \<and> w \<noteq> []))"
    by (simp only: dotted_blocks_iff)
  also have "\<dots> \<longleftrightarrow> list_all (\<lambda>c. \<not> is_re2_space c) s
     \<and> (\<exists>x r. s = x @ CHR ''@'' # r \<and> x \<noteq> [] \<and> (\<exists>y w. r = y @ CHR ''.'' # w \<and> y \<noteq> [] \<and> w \<noteq> []))"
    (is "?A \<longleftrightarrow> ?B")
  proof
    assume ?A
    then obtain x r where s: "s = x @ CHR ''@'' # r" and x: "nonspace_plus x"
      and r: "list_all (\<lambda>c. \<not> is_re2_space c) r" and p: "\<exists>y w. r = y @ CHR ''.'' # w \<and> y \<noteq> [] \<and> w \<noteq> []"
      by blast
    have "list_all (\<lambda>c. \<not> is_re2_space c) s"
      using s x r by (simp add: nonspace_plus_def is_re2_space_def)
    with s x p show ?B by (auto simp: nonspace_plus_def)
  next
    assume ?B
    then obtain x r where ns: "list_all (\<lambda>c. \<not> is_re2_space c) s" and s: "s = x @ CHR ''@'' # r"
      and x: "x \<noteq> []" and p: "\<exists>y w. r = y @ CHR ''.'' # w \<and> y \<noteq> [] \<and> w \<noteq> []"
      by blast
    from ns s have "list_all (\<lambda>c. \<not> is_re2_space c) x" and "list_all (\<lambda>c. \<not> is_re2_space c) r"
      by simp_all
    with s x p show ?A by (auto simp: nonspace_plus_def)
  qed
  finally show ?thesis .
qed

lemma after_first_at:
  "\<exists>p. drop 1 (dropWhile (\<lambda>c. c \<noteq> CHR ''@'') (x @ CHR ''@'' # r)) = p @ r"
proof (induction x)
  case Nil
  then show ?case by simp
next
  case (Cons c x)
  then show ?case by (cases "c = CHR ''@''") auto
qed

lemma email_match_iff_regex: "email_match s \<longleftrightarrow> email_regex s"
proof -
  let ?P = "\<lambda>r. \<exists>y w. r = y @ CHR ''.'' # w \<and> y \<noteq> [] \<and> w \<noteq> []"
  have core: "(case s of [] \<Rightarrow> False
        | c # cs \<Rightarrow> CHR ''@'' \<in> set cs
            \<and> ?P (drop 1 (dropWhile (\<lambda>c. c \<noteq> CHR ''@'') cs)))
      \<longleftrightarrow> (\<exists>x r. s = x @ CHR ''@'' # r \<and> x \<noteq> [] \<and> ?P r)"
  proof (cases s)
    case Nil
    then show ?thesis by simp
  next
    case (Cons c cs)
    show ?thesis
    proof
      assume "case s of [] \<Rightarrow> False
        | c # cs \<Rightarrow> CHR ''@'' \<in> set cs \<and> ?P (drop 1 (dropWhile (\<lambda>c. c \<noteq> CHR ''@'') cs))"
      with Cons have at: "CHR ''@'' \<in> set cs"
        and p: "?P (drop 1 (dropWhile (\<lambda>c. c \<noteq> CHR ''@'') cs))" by simp_all
      let ?d = "dropWhile (\<lambda>c. c \<noteq> CHR ''@'') cs"
      from at have ne: "?d \<noteq> []" by (simp add: dropWhile_eq_Nil_conv)
      have hd: "hd ?d = CHR ''@''" using hd_dropWhile [OF ne] by simp
      have "?d = hd ?d # tl ?d" using ne by simp
      with hd have d: "?d = CHR ''@'' # drop 1 ?d" by (simp add: drop_Suc)
      have "cs = takeWhile (\<lambda>c. c \<noteq> CHR ''@'') cs @ ?d" by simp
      with d Cons have "s = (c # takeWhile (\<lambda>c. c \<noteq> CHR ''@'') cs) @ CHR ''@'' # drop 1 ?d"
        by simp
      with p show "\<exists>x r. s = x @ CHR ''@'' # r \<and> x \<noteq> [] \<and> ?P r" by blast
    next
      assume "\<exists>x r. s = x @ CHR ''@'' # r \<and> x \<noteq> [] \<and> ?P r"
      then obtain x r where s: "s = x @ CHR ''@'' # r" and x: "x \<noteq> []" and p: "?P r" by blast
      from s x Cons have cs: "cs = tl x @ CHR ''@'' # r" by (cases x) auto
      obtain q where "drop 1 (dropWhile (\<lambda>c. c \<noteq> CHR ''@'') cs) = q @ r"
        using after_first_at [of "tl x" r] cs by blast
      with inner_dot_append [OF p, of q] have "?P (drop 1 (dropWhile (\<lambda>c. c \<noteq> CHR ''@'') cs))"
        by simp
      with cs Cons show "case s of [] \<Rightarrow> False
        | c # cs \<Rightarrow> CHR ''@'' \<in> set cs \<and> ?P (drop 1 (dropWhile (\<lambda>c. c \<noteq> CHR ''@'') cs))"
        by simp
    qed
  qed
  have "email_match s \<longleftrightarrow> list_all (\<lambda>c. \<not> is_re2_space c) s
      \<and> (case s of [] \<Rightarrow> False
           | c # cs \<Rightarrow> CHR ''@'' \<in> set cs \<and> ?P (drop 1 (dropWhile (\<lambda>c. c \<noteq> CHR ''@'') cs)))"
    by (simp only: email_match_def inner_dot_iff)
  also have "\<dots> \<longleftrightarrow> list_all (\<lambda>c. \<not> is_re2_space c) s \<and> (\<exists>x r. s = x @ CHR ''@'' # r \<and> x \<noteq> [] \<and> ?P r)"
    by (simp only: core)
  also have "\<dots> \<longleftrightarrow> email_regex s"
    by (simp only: email_regex_split)
  finally show ?thesis .
qed


subsection \<open>Numbers\<close>

lemma int_string_zero: "int_string 0 = ''0''"
  by (simp add: int_string_def dec_string_small digit_char_def) code_simp

lemma int_string_16_ether: "int_string (16 * 10 ^ 18) = ''16'' @ ether_zeros"
  by (simp add: int_string_def dec_string_small dec_string_step digit_char_def ether_zeros_def) code_simp

lemma int_string_32_ether: "int_string (32 * 10 ^ 18) = ''32'' @ ether_zeros"
  by (simp add: int_string_def dec_string_small dec_string_step digit_char_def ether_zeros_def) code_simp

lemma go_trim_space_example: "go_trim_space ([CHR 0xC2, CHR 0xA0] @ '' ab c'' @ [CHR 0x0B]) = ''ab c''"
proof -
  have a: "space_prefix_len ([CHR 0xC2, CHR 0xA0] @ '' ab c'' @ [CHR 0x0B]) = 2" by code_simp
  have b: "space_prefix_len ('' ab c'' @ [CHR 0x0B]) = 1" by code_simp
  have c: "space_prefix_len (''ab c'' @ [CHR 0x0B]) = 0" by code_simp
  have d: "space_suffix_len (''ab c'' @ [CHR 0x0B]) = 1" by code_simp
  have e: "space_suffix_len ''ab c'' = 0" by code_simp
  have "go_trim_space ([CHR 0xC2, CHR 0xA0] @ '' ab c'' @ [CHR 0x0B])
      = trim_right_space (trim_left_space ([CHR 0xC2, CHR 0xA0] @ '' ab c'' @ [CHR 0x0B]))"
    by (simp only: go_trim_space_def)
  also have "trim_left_space ([CHR 0xC2, CHR 0xA0] @ '' ab c'' @ [CHR 0x0B])
      = trim_left_space ('' ab c'' @ [CHR 0x0B])"
    using trim_left_space_drop [OF a] by simp
  also have "\<dots> = trim_left_space (''ab c'' @ [CHR 0x0B])"
    using trim_left_space_drop [OF b] by simp
  also have "\<dots> = ''ab c'' @ [CHR 0x0B]"
    using trim_left_space_stop [OF c] .
  also have "trim_right_space (''ab c'' @ [CHR 0x0B]) = trim_right_space ''ab c''"
    using trim_right_space_take [OF d] by simp
  also have "\<dots> = ''ab c''"
    using trim_right_space_stop [OF e] .
  finally show ?thesis .
qed


section \<open>Properties of the validators\<close>

text \<open>
  C12. \<open>ValidateUint\<close> accepts exactly the non-empty digit strings whose value is below
  \<open>2^64\<close> (leading zeros allowed; no sign, no white space), and then returns that value
  without wrap-around.
\<close>

theorem validate_uint_accepts:
  "validate_uint name v = Inr w \<longleftrightarrow>
     v \<noteq> [] \<and> list_all is_digit v \<and> dec_val v < 2 ^ 64 \<and> unat w = dec_val v"
proof
  assume "validate_uint name v = Inr w"
  then have c: "v \<noteq> [] \<and> list_all is_digit v \<and> dec_val v < 2 ^ 64" and w: "w = word_of_nat (dec_val v)"
    by (auto simp: validate_uint_def parse_uint64_def split: if_splits)
  from c w show "v \<noteq> [] \<and> list_all is_digit v \<and> dec_val v < 2 ^ 64 \<and> unat w = dec_val v"
    by (simp add: unat_of_nat)
next
  assume a: "v \<noteq> [] \<and> list_all is_digit v \<and> dec_val v < 2 ^ 64 \<and> unat w = dec_val v"
  then have "w = word_of_nat (dec_val v)" by (metis of_nat_unat ucast_id)
  with a show "validate_uint name v = Inr w"
    by (simp add: validate_uint_def parse_uint64_def)
qed

theorem validate_uint_accepts_witness:
  "validate_uint ''count'' ''007'' = Inr 7
   \<and> (''007'' \<noteq> [] \<and> list_all is_digit ''007'' \<and> dec_val ''007'' < 2 ^ 64 \<and> unat (7 :: 64 word) = dec_val ''007'')"
proof -
  have v: "validate_uint ''count'' ''007'' = Inr 7"
    by (simp add: validate_uint_def parse_uint64_def dec_val_def digit_val_def byte_of_def is_digit_def)
  from v validate_uint_accepts [of "''count''" "''007''" 7] show ?thesis by simp
qed

text \<open>
  C13. \<open>ValidateWeiAmount\<close> accepts what \<open>big.Int.String()\<close> prints, negative values
  included, and returns the printed value.
\<close>

theorem validate_wei_amount_roundtrip: "validate_wei_amount name (int_string x) = Inr x"
  by (simp add: validate_wei_amount_def)

text \<open>C14. \<open>ValidatePositiveWeiAmount\<close> returns only a positive amount, the one written.\<close>

theorem validate_positive_wei_amount_positive:
  assumes "validate_positive_wei_amount name v = Inr x"
  shows "0 < x \<and> parse_bigint v = Some x"
  using assms
  by (auto simp: validate_positive_wei_amount_def validate_wei_amount_def split: option.splits if_splits)

theorem validate_positive_wei_amount_positive_witness:
  "validate_positive_wei_amount ''amount'' ''+5'' = Inr 5 \<and> 0 < (5::int) \<and> parse_bigint ''+5'' = Some 5"
proof -
  have p: "parse_bigint ''+5'' = Some 5"
    by (simp add: parse_bigint_def parse_digits_def dec_val_def digit_val_def byte_of_def is_digit_def)
  then have v: "validate_positive_wei_amount ''amount'' ''+5'' = Inr 5"
    by (simp add: validate_positive_wei_amount_def validate_wei_amount_def)
  from v validate_positive_wei_amount_positive [OF v] show ?thesis by simp
qed

text \<open>
  C15. \<open>ValidateDepositWeiAmount\<close> compares the printed value with three strings; this
  is the same as accepting exactly the amounts 0, 16 ether and 32 ether, in any written
  form \<open>SetString\<close> accepts (a sign, leading zeros).
\<close>

theorem validate_deposit_wei_amount_values:
  "validate_deposit_wei_amount name v = Inr x \<longleftrightarrow>
     parse_bigint v = Some x \<and> (x = 0 \<or> x = 16 * 10 ^ 18 \<or> x = 32 * 10 ^ 18)"
proof -
  have "int_string x = ''0'' \<longleftrightarrow> x = 0"
    using int_string_inj int_string_zero by metis
  moreover have "int_string x = ''16'' @ ether_zeros \<longleftrightarrow> x = 16 * 10 ^ 18"
    using int_string_inj int_string_16_ether by metis
  moreover have "int_string x = ''32'' @ ether_zeros \<longleftrightarrow> x = 32 * 10 ^ 18"
    using int_string_inj int_string_32_ether by metis
  ultimately have "(int_string x = ''0'' \<or> int_string x = ''16'' @ ether_zeros
      \<or> int_string x = ''32'' @ ether_zeros) \<longleftrightarrow> (x = 0 \<or> x = 16 * 10 ^ 18 \<or> x = 32 * 10 ^ 18)"
    by (simp only:)
  then show ?thesis
    unfolding validate_deposit_wei_amount_def validate_wei_amount_def
    by (cases "parse_bigint v") (auto simp del: power_numeral)
qed

theorem validate_deposit_wei_amount_values_witness:
  "validate_deposit_wei_amount ''amount'' ''+016000000000000000000'' = Inr (16 * 10 ^ 18)
   \<and> parse_bigint ''+016000000000000000000'' = Some (16 * 10 ^ 18)"
proof -
  have p: "parse_bigint ''+016000000000000000000'' = Some (16 * 10 ^ 18)"
    by (simp add: parse_bigint_def parse_digits_def dec_val_def digit_val_def byte_of_def is_digit_def)
  have "validate_deposit_wei_amount ''amount'' ''+016000000000000000000'' = Inr (16 * 10 ^ 18)"
    using validate_deposit_wei_amount_values [of "''amount''" "''+016000000000000000000''" "16 * 10 ^ 18"] p
    by blast
  with p show ?thesis by blast
qed

text \<open>
  C16. \<open>ValidateDAOMemberID\<close> returns the trimmed value: at least three bytes long, with
  no white-space rune at either end (so trimming it again changes nothing), and a
  piece of the value given.
\<close>

theorem validate_dao_member_id_trimmed:
  assumes "validate_dao_member_id name v = Inr x"
  shows "3 \<le> length x \<and> space_prefix_len x = 0 \<and> space_suffix_len x = 0
     \<and> go_trim_space x = x \<and> (\<exists>u w. v = u @ x @ w)"
proof -
  from assms have x: "x = go_trim_space v" and l: "3 \<le> length x"
    by (auto simp: validate_dao_member_id_def min_dao_member_id_length_def Let_def split: if_splits)
  show ?thesis
    using l go_trim_space_no_prefix [of v] go_trim_space_no_suffix [of v] go_trim_space_idem [of v]
      go_trim_space_infix [of v]
    by (simp add: x)
qed

theorem validate_dao_member_id_trimmed_witness:
  "validate_dao_member_id ''id'' ([CHR 0xC2, CHR 0xA0] @ '' ab c'' @ [CHR 0x0B]) = Inr ''ab c''
   \<and> 3 \<le> length ''ab c'' \<and> space_prefix_len ''ab c'' = 0 \<and> space_suffix_len ''ab c'' = 0
   \<and> go_trim_space ''ab c'' = ''ab c''
   \<and> (\<exists>u w. [CHR 0xC2, CHR 0xA0] @ '' ab c'' @ [CHR 0x0B] = u @ ''ab c'' @ w)"
proof -
  have v: "validate_dao_member_id ''id'' ([CHR 0xC2, CHR 0xA0] @ '' ab c'' @ [CHR 0x0B]) = Inr ''ab c''"
    using go_trim_space_example
    by (simp add: validate_dao_member_id_def min_dao_member_id_length_def Let_def)
  from v validate_dao_member_id_trimmed [OF v] show ?thesis by blast
qed

text \<open>
  C17. \<open>ValidateDAOMemberEmail\<close> accepts exactly the values of at least six bytes that
  the pattern \<open>^\S+@\S+(\.\S+)+$\<close> matches, and returns them unchanged.
\<close>

theorem validate_dao_member_email_regex:
  "validate_dao_member_email name v = Inr x \<longleftrightarrow> x = v \<and> 6 \<le> length v \<and> email_regex v"
  by (auto simp: validate_dao_member_email_def min_dao_member_email_length_def email_match_iff_regex
      split: if_splits)

theorem validate_dao_member_email_regex_witness:
  "validate_dao_member_email ''email'' ''node@rocket.pool'' = Inr ''node@rocket.pool''
   \<and> email_regex ''node@rocket.pool''"
proof -
  have v: "validate_dao_member_email ''email'' ''node@rocket.pool'' = Inr ''node@rocket.pool''"
    by code_simp
  from v validate_dao_member_email_regex [of "''email''" "''node@rocket.pool''" "''node@rocket.pool''"]
  show ?thesis by simp
qed

text \<open>
  C18. \<open>ValidateTimezoneLocation\<close> accepts exactly the values the pattern
  \<open>^\w{2,}\/\w{2,}$\<close> matches, and returns them unchanged.
\<close>

theorem validate_timezone_location_regex:
  "validate_timezone_location name v = Inr x \<longleftrightarrow> x = v \<and> tz_regex v"
  by (auto simp: validate_timezone_location_def tz_match_iff_regex split: if_splits)

theorem validate_timezone_location_regex_witness:
  "validate_timezone_location ''tz'' ''Europe/Lisbon'' = Inr ''Europe/Lisbon'' \<and> tz_regex ''Europe/Lisbon''"
proof -
  have v: "validate_timezone_location ''tz'' ''Europe/Lisbon'' = Inr ''Europe/Lisbon''"
    by code_simp
  from v validate_timezone_location_regex [of "''tz''" "''Europe/Lisbon''" "''Europe/Lisbon''"]
  show ?thesis by simp
qed

subsection \<open>Case-insensitive validators\<close>

lemma ascii_lower_idem [simp]: "ascii_lower (ascii_lower c) = ascii_lower c"
proof (cases "65 \<le> byte_of c \<and> byte_of c \<le> 90")
  case True
  then have "byte_of (char_of (byte_of c + 32)) = byte_of c + 32"
    by (simp add: byte_of_def)
  with True have b: "\<not> (65 \<le> byte_of (char_of (byte_of c + 32)) \<and> byte_of (char_of (byte_of c + 32)) \<le> 90)"
    by simp
  have a: "ascii_lower c = char_of (byte_of c + 32)" using True by (simp add: ascii_lower_def)
  have "ascii_lower (char_of (byte_of c + 32)) = char_of (byte_of c + 32)"
    unfolding ascii_lower_def by (rule if_not_P [OF b])
  with a show ?thesis by simp
next
  case False
  then have "ascii_lower c = c" unfolding ascii_lower_def by (rule if_not_P)
  then show ?thesis by simp
qed

lemma go_to_lower_idem [simp]: "go_to_lower (go_to_lower s) = go_to_lower s"
  by (simp add: go_to_lower_def)

text \<open>
  C32. \<open>ValidateBool\<close> ignores case: its result on a value is its result on the
  value in lower case, whether it accepts (with the same boolean) or rejects.
\<close>

theorem validate_bool_case_insensitive:
  "isl (validate_bool name v) = isl (validate_bool name (go_to_lower v))
   \<and> (\<forall>b. validate_bool name v = Inr b \<longleftrightarrow> validate_bool name (go_to_lower v) = Inr b)"
  by (simp add: validate_bool_def Let_def)

text \<open>
  C33. Every value \<open>ValidateBurnableTokenType\<close> accepts is accepted by
  \<open>ValidateTokenType\<close> too, with the same canonical (lower-case) result, one of
  \<open>neth\<close> and \<open>reth\<close>.
\<close>

theorem validate_burnable_token_type_refines:
  assumes "validate_burnable_token_type name v = Inr t"
  shows "validate_token_type name v = Inr t \<and> t \<in> {''neth'', ''reth''}"
  using assms
  by (auto simp: validate_burnable_token_type_def validate_token_type_def Let_def split: if_splits)

theorem validate_burnable_token_type_refines_witness:
  "validate_burnable_token_type ''token'' ''rETH'' = Inr ''reth''
   \<and> validate_token_type ''token'' ''rETH'' = Inr ''reth'' \<and> ''reth'' \<in> {''neth'', ''reth''}"
proof -
  have v: "validate_burnable_token_type ''token'' ''rETH'' = Inr ''reth''" by code_simp
  from v validate_burnable_token_type_refines [OF v] show ?thesis by simp
qed

end
