(* ===== verification/EnsName.thy ===== *)
theory EnsName
  imports Validation
begin

text \<open>
  The two commands of \<open>src/rocketpool-cli/wallet/ens-name.go\<close>, \<open>setEnsName\<close> and
  \<open>setEnsAvatar\<close>. Each opens a client to the node's API, prints what it is about to
  do, asks the node for a gas estimate, lets \<open>gas.AssignMaxFeeAndLimit\<close> fix the fees,
  asks the user to confirm, submits the transaction, prints its hash and waits for it to
  be mined; the client is closed by a deferred \<open>rp.Close()\<close> on every path after it was
  opened. The model records the run as the list of calls to the outside world
  (\<open>event\<close>s) and returns the Go \<open>error\<close> result (\<open>None\<close> is \<open>nil\<close>). What the
  client, the gas helper and the prompt answer is a field of the interface record
  \<open>ens_env\<close>, so every theorem holds for every node and every user.

  Both commands are instances of one flow, \<open>tx_command\<close>; the protocol the flow obeys
  is the automaton \<open>proto_step\<close>, and the lemmas about it are proved once, by rule
  induction, and transferred to both commands.
\<close>

section \<open>The environment\<close>

text \<open>
  \<open>common.Address\<close> is \<open>address\<close> of the prelude; \<open>*big.Int\<close> is \<open>int\<close>. The client's answers
  are functions of the call's arguments; \<open>confirm\<close> is the user's answer to a prompt
  (\<open>cliutils.Confirm\<close>).
\<close>

record ('e, 'g, 'h) ens_env =
  new_client :: "'e + unit"
  estimate_gas_set_ens_name :: "string \<Rightarrow> 'e + 'g"
  estimate_gas_set_ens_avatar :: "string \<Rightarrow> address \<Rightarrow> int \<Rightarrow> 'e + 'g"
  assign_max_fee_and_limit :: "'g \<Rightarrow> bool \<Rightarrow> 'e + unit"
  confirm :: "string \<Rightarrow> bool"
  rp_set_ens_name :: "string \<Rightarrow> 'e + 'h"
  rp_set_ens_avatar :: "string \<Rightarrow> address \<Rightarrow> int \<Rightarrow> 'e + 'h"
  wait_for_transaction :: "'h \<Rightarrow> 'e + unit"
  address_hex :: "address \<Rightarrow> string"

text \<open>The calls a run makes, in order; \<open>EvConfirm\<close> records the prompt and the answer.\<close>

datatype ('g, 'h) event =
    EvNewClient
  | EvClose
  | EvPrint string
  | EvEstimateSetEnsName string
  | EvEstimateSetEnsAvatar string address int
  | EvAssignMaxFee 'g bool
  | EvConfirm string bool
  | EvSetEnsName string
  | EvSetEnsAvatar string address int
  | EvPrintTxHash 'h
  | EvWaitForTransaction 'h

definition nl :: string where
  "nl = [CHR 0x0A]"

text \<open>\<open>colorYellow\<close> and \<open>colorReset\<close> of the \<open>wallet\<close> package (ANSI escapes).\<close>

definition color_yellow :: string where
  "color_yellow = [CHR 0x1B] @ ''[33m''"

definition color_reset :: string where
  "color_reset = [CHR 0x1B] @ ''[0m''"

section \<open>The commands\<close>

definition set_ens_name_intro :: "string \<Rightarrow> string" where
  "set_ens_name_intro name =
     ''This will confirm the node'' @ [CHR 0x27] @ ''s ENS name as '' @ sq name @ ''.'' @ nl @ nl
     @ color_yellow @ ''NOTE: to confirm your name, you must first register it with the ENS application at https://app.ens.domains.''
     @ nl @ ''We recommend using a hardware wallet as the base domain, and registering your node as a subdomain of it.''
     @ color_reset @ nl @ nl"

definition set_ens_name_prompt :: string where
  "set_ens_name_prompt = ''Are you sure you want to confirm your node'' @ [CHR 0x27] @ ''s ENS name?''"

definition set_ens_name_done :: "string \<Rightarrow> string" where
  "set_ens_name_done name =
     ''The ENS name associated with your node account is now '' @ sq name @ ''.'' @ nl @ nl"

text \<open>
  \<open>setEnsName(c, name)\<close>, lines 14--57; \<open>yes\<close> is \<open>c.Bool("yes")\<close>. A failing
  \<open>NewClientFromCtx\<close> returns before the \<open>defer\<close> is registered; every later return
  runs the deferred \<open>Close\<close> after the result is fixed.
\<close>

definition set_ens_name :: "('e, 'g, 'h) ens_env \<Rightarrow> bool \<Rightarrow> string \<Rightarrow> 'e option \<times> ('g, 'h) event list" where
  "set_ens_name E yes name =
     (case new_client E of
        Inl err \<Rightarrow> (Some err, [EvNewClient])
      | Inr _ \<Rightarrow>
          (let (r, tr) =
             (let t0 = [EvPrint (set_ens_name_intro name), EvEstimateSetEnsName name] in
              case estimate_gas_set_ens_name E name of
                Inl err \<Rightarrow> (Some err, t0)
              | Inr g \<Rightarrow>
                  (let t1 = t0 @ [EvAssignMaxFee g yes] in
                   case assign_max_fee_and_limit E g yes of
                     Inl err \<Rightarrow> (Some err, t1)
                   | Inr _ \<Rightarrow>
                       (let ok = confirm E set_ens_name_prompt;
                            t2 = t1 @ [EvConfirm set_ens_name_prompt ok] in
                        if \<not> ok then (None, t2 @ [EvPrint (''Cancelled.'' @ nl)])
                        else
                          (let t3 = t2 @ [EvSetEnsName name] in
                           case rp_set_ens_name E name of
                             Inl err \<Rightarrow> (Some err, t3)
                           | Inr h \<Rightarrow>
                               (let t4 = t3 @ [EvPrint (''Setting ENS name...'' @ nl), EvPrintTxHash h,
                                              EvWaitForTransaction h] in
                                case wait_for_transaction E h of
                                  Inl err \<Rightarrow> (Some err, t4)
                                | Inr _ \<Rightarrow> (None, t4 @ [EvPrint (set_ens_name_done name)]))))))
           in (r, EvNewClient # tr @ [EvClose])))"

definition avatar_string :: "('e, 'g, 'h) ens_env \<Rightarrow> string \<Rightarrow> address \<Rightarrow> int \<Rightarrow> string" where
  "avatar_string E erc_type contract_address token_id =
     erc_type @ '':'' @ address_hex E contract_address @ '':'' @ int_string token_id"

definition set_ens_avatar_intro :: "('e, 'g, 'h) ens_env \<Rightarrow> string \<Rightarrow> address \<Rightarrow> int \<Rightarrow> string" where
  "set_ens_avatar_intro E erc_type contract_address token_id =
     ''This will confirm the node'' @ [CHR 0x27] @ ''s ENS avatar as ''
     @ sq (avatar_string E erc_type contract_address token_id) @ ''.'' @ nl @ nl @ color_reset @ nl @ nl"

definition set_ens_avatar_prompt :: string where
  "set_ens_avatar_prompt = ''Are you sure you want to confirm your node'' @ [CHR 0x27] @ ''s ENS avatar?''"

text \<open>
  Line 99 formats the address and the token id with \<open>%s\<close>: \<open>common.Address\<close>
  implements \<open>Format\<close> and prints its \<open>Hex()\<close> form for \<open>%s\<close>, \<open>*big.Int\<close> prints
  its decimal form, so the message shows the same triple as line 68.
\<close>

definition set_ens_avatar_done :: "('e, 'g, 'h) ens_env \<Rightarrow> string \<Rightarrow> address \<Rightarrow> int \<Rightarrow> string" where
  "set_ens_avatar_done E erc_type contract_address token_id =
     ''The ENS avatar associated with your node account is now ''
     @ sq (avatar_string E erc_type contract_address token_id) @ ''.'' @ nl @ nl"

text \<open>\<open>setEnsAvatar(c, ercType, contractAddress, tokenId)\<close>, lines 59--102.\<close>

definition set_ens_avatar ::
    "('e, 'g, 'h) ens_env \<Rightarrow> bool \<Rightarrow> string \<Rightarrow> address \<Rightarrow> int \<Rightarrow> 'e option \<times> ('g, 'h) event list" where
  "set_ens_avatar E yes erc_type contract_address token_id =
     (case new_client E of
        Inl err \<Rightarrow> (Some err, [EvNewClient])
      | Inr _ \<Rightarrow>
          (let (r, tr) =
             (let t0 = [EvPrint (set_ens_avatar_intro E erc_type contract_address token_id),
                        EvEstimateSetEnsAvatar erc_type contract_address token_id] in
              case estimate_gas_set_ens_avatar E erc_type contract_address token_id of
                Inl err \<Rightarrow> (Some err, t0)
              | Inr g \<Rightarrow>
                  (let t1 = t0 @ [EvAssignMaxFee g yes] in
                   case assign_max_fee_and_limit E g yes of
                     Inl err \<Rightarrow> (Some err, t1)
                   | Inr _ \<Rightarrow>
                       (let ok = confirm E set_ens_avatar_prompt;
                            t2 = t1 @ [EvConfirm set_ens_avatar_prompt ok] in
                        if \<not> ok then (None, t2 @ [EvPrint (''Cancelled.'' @ nl)])
                        else
                          (let t3 = t2 @ [EvSetEnsAvatar erc_type contract_address token_id] in
                           case rp_set_ens_avatar E erc_type contract_address token_id of
                             Inl err \<Rightarrow> (Some err, t3)
                           | Inr h \<Rightarrow>
                               (let t4 = t3 @ [EvPrint (''Setting ENS avatar...'' @ nl), EvPrintTxHash h,
                                              EvWaitForTransaction h] in
                                case wait_for_transaction E h of
                                  Inl err \<Rightarrow> (Some err, t4)
                                | Inr _ \<Rightarrow> (None, t4 @ [EvPrint (set_ens_avatar_done E erc_type contract_address token_id)]))))))
           in (r, EvNewClient # tr @ [EvClose])))"

section \<open>The shared flow\<close>

text \<open>
  The flow both commands follow, with the command-specific messages, the estimate and
  submission calls and their events as parameters. The definitions above are the code;
  \<open>set_ens_name_flow\<close> and \<open>set_ens_avatar_flow\<close> show they are instances of this.
\<close>

definition tx_command ::
    "('e, 'g, 'h) ens_env \<Rightarrow> bool \<Rightarrow> string \<Rightarrow> ('g, 'h) event \<Rightarrow> 'e + 'g \<Rightarrow> string
      \<Rightarrow> ('g, 'h) event \<Rightarrow> 'e + 'h \<Rightarrow> string \<Rightarrow> string \<Rightarrow> 'e option \<times> ('g, 'h) event list" where
  "tx_command E yes intro est_ev est prompt sub_ev sub progress done_msg =
     (case new_client E of
        Inl err \<Rightarrow> (Some err, [EvNewClient])
      | Inr _ \<Rightarrow>
          (let (r, tr) =
             (let t0 = [EvPrint intro, est_ev] in
              case est of
                Inl err \<Rightarrow> (Some err, t0)
              | Inr g \<Rightarrow>
                  (let t1 = t0 @ [EvAssignMaxFee g yes] in
                   case assign_max_fee_and_limit E g yes of
                     Inl err \<Rightarrow> (Some err, t1)
                   | Inr _ \<Rightarrow>
                       (let ok = confirm E prompt;
                            t2 = t1 @ [EvConfirm prompt ok] in
                        if \<not> ok then (None, t2 @ [EvPrint (''Cancelled.'' @ nl)])
                        else
                          (let t3 = t2 @ [sub_ev] in
                           case sub of
                             Inl err \<Rightarrow> (Some err, t3)
                           | Inr h \<Rightarrow>
                               (let t4 = t3 @ [EvPrint progress, EvPrintTxHash h, EvWaitForTransaction h] in
                                case wait_for_transaction E h of
                                  Inl err \<Rightarrow> (Some err, t4)
                                | Inr _ \<Rightarrow> (None, t4 @ [EvPrint done_msg]))))))
           in (r, EvNewClient # tr @ [EvClose])))"

section \<open>The client protocol\<close>

text \<open>
  The protocol a command must follow, as an automaton over the calls: open the client,
  print, estimate, fix the fees, ask; a transaction is sent only after a positive
  answer, its hash is printed and the same hash is waited for; the client may be closed
  from any phase after it was opened (an error ends the command early), and nothing
  happens after it was closed.
\<close>

datatype 'h phase =
    Start | Opened | Estimated | Priced | Cancelled | Approved | Submitted | Hashed 'h | Mined | Closed

fun is_estimate :: "('g, 'h) event \<Rightarrow> bool" where
  "is_estimate (EvEstimateSetEnsName _) = True"
| "is_estimate (EvEstimateSetEnsAvatar _ _ _) = True"
| "is_estimate _ = False"

fun is_submit :: "('g, 'h) event \<Rightarrow> bool" where
  "is_submit (EvSetEnsName _) = True"
| "is_submit (EvSetEnsAvatar _ _ _) = True"
| "is_submit _ = False"

fun client_open :: "'h phase \<Rightarrow> bool" where
  "client_open Start = False"
| "client_open Closed = False"
| "client_open _ = True"

fun approved :: "'h phase \<Rightarrow> bool" where
  "approved Approved = True"
| "approved Submitted = True"
| "approved (Hashed _) = True"
| "approved Mined = True"
| "approved _ = False"

inductive proto_step :: "'h phase \<Rightarrow> ('g, 'h) event \<Rightarrow> 'h phase \<Rightarrow> bool" where
  open_client: "proto_step Start EvNewClient Opened"
| print_intro: "proto_step Opened (EvPrint s) Opened"
| estimate: "is_estimate e \<Longrightarrow> proto_step Opened e Estimated"
| assign_fee: "proto_step Estimated (EvAssignMaxFee g y) Priced"
| answer_yes: "proto_step Priced (EvConfirm p True) Approved"
| answer_no: "proto_step Priced (EvConfirm p False) Cancelled"
| print_cancelled: "proto_step Cancelled (EvPrint s) Cancelled"
| submit: "is_submit e \<Longrightarrow> proto_step Approved e Submitted"
| print_progress: "proto_step Submitted (EvPrint s) Submitted"
| print_hash: "proto_step Submitted (EvPrintTxHash h) (Hashed h)"
| wait: "proto_step (Hashed h) (EvWaitForTransaction h) Mined"
| print_done: "proto_step Mined (EvPrint s) Mined"
| close: "client_open p \<Longrightarrow> proto_step p EvClose Closed"

code_pred proto_step .

inductive proto_run :: "'h phase \<Rightarrow> ('g, 'h) event list \<Rightarrow> 'h phase \<Rightarrow> bool" where
  run_nil: "proto_run p [] p"
| run_cons: "proto_step p e q \<Longrightarrow> proto_run q es r \<Longrightarrow> proto_run p (e # es) r"

code_pred proto_run .

inductive_cases proto_run_ConsE: "proto_run p (e # es) r"
inductive_cases proto_run_NilE: "proto_run p [] r"
inductive_simps proto_run_Nil_simp: "proto_run p [] r"
inductive_simps proto_run_Cons_simp: "proto_run p (e # es) r"
inductive_simps proto_step_simps: "proto_step p e q"


section \<open>An example environment\<close>

text \<open>A node that answers every call successfully and a user who confirms.\<close>

definition ex_ens_env :: "(string, nat, nat) ens_env" where
  "ex_ens_env =
     \<lparr>new_client = Inr (), estimate_gas_set_ens_name = (\<lambda>_. Inr 21000),
      estimate_gas_set_ens_avatar = (\<lambda>_ _ _. Inr 42000), assign_max_fee_and_limit = (\<lambda>_ _. Inr ()),
      confirm = (\<lambda>_. True), rp_set_ens_name = (\<lambda>_. Inr 7), rp_set_ens_avatar = (\<lambda>_ _ _. Inr 8),
      wait_for_transaction = (\<lambda>_. Inr ()), address_hex = (\<lambda>_. ''0x00'')\<rparr>"

section \<open>Lemmas\<close>

subsection \<open>Both commands are the shared flow\<close>

lemma set_ens_name_flow:
  "set_ens_name E yes name =
     tx_command E yes (set_ens_name_intro name) (EvEstimateSetEnsName name) (estimate_gas_set_ens_name E name)
       set_ens_name_prompt (EvSetEnsName name) (rp_set_ens_name E name) (''Setting ENS name...'' @ nl)
       (set_ens_name_done name)"
  unfolding set_ens_name_def tx_command_def ..

lemma set_ens_avatar_flow:
  "set_ens_avatar E yes erc_type contract_address token_id =
     tx_command E yes (set_ens_avatar_intro E erc_type contract_address token_id)
       (EvEstimateSetEnsAvatar erc_type contract_address token_id)
       (estimate_gas_set_ens_avatar E erc_type contract_address token_id)
       set_ens_avatar_prompt (EvSetEnsAvatar erc_type contract_address token_id)
       (rp_set_ens_avatar E erc_type contract_address token_id) (''Setting ENS avatar...'' @ nl)
       (set_ens_avatar_done E erc_type contract_address token_id)"
  unfolding set_ens_avatar_def tx_command_def ..

subsection \<open>The automaton\<close>

lemma proto_run_append:
  "proto_run p xs q \<Longrightarrow> proto_run q ys r \<Longrightarrow> proto_run p (xs @ ys) r"
  by (induction rule: proto_run.induct) (auto intro: proto_run.intros)

lemma proto_step_approved:
  "proto_step p e q \<Longrightarrow> \<not> approved p \<Longrightarrow> approved q \<Longrightarrow> \<exists>pr. e = EvConfirm pr True"
  by (induction rule: proto_step.induct) auto

lemma proto_step_submit:
  "proto_step p e q \<Longrightarrow> is_submit e \<Longrightarrow> approved p"
  by (induction rule: proto_step.induct) (auto elim: is_submit.elims is_estimate.elims)

lemma proto_run_submit_confirmed:
  "proto_run p tr q \<Longrightarrow> tr = xs @ e # ys \<Longrightarrow> is_submit e \<Longrightarrow> \<not> approved p
     \<Longrightarrow> \<exists>pr. EvConfirm pr True \<in> set xs"
proof (induction arbitrary: xs rule: proto_run.induct)
  case (run_nil p)
  then show ?case by simp
next
  case (run_cons p e0 q es r)
  show ?case
  proof (cases xs)
    case Nil
    with run_cons.prems have "e0 = e" by simp
    with run_cons.hyps(1) run_cons.prems(2,3) show ?thesis
      using proto_step_submit by blast
  next
    case (Cons x xs')
    with run_cons.prems(1) have x: "x = e0" and es: "es = xs' @ e # ys" by simp_all
    show ?thesis
    proof (cases "approved q")
      case True
      with proto_step_approved [OF run_cons.hyps(1) run_cons.prems(3)] obtain pr where "e0 = EvConfirm pr True"
        by blast
      with Cons x show ?thesis by auto
    next
      case False
      from run_cons.IH [OF es run_cons.prems(2) False] Cons show ?thesis by auto
    qed
  qed
qed

lemma proto_step_closed: "proto_step Closed e q \<Longrightarrow> False"
  by (cases rule: proto_step.cases) auto

lemma proto_run_from_closed: "proto_run Closed tr q \<Longrightarrow> tr = []"
  by (cases rule: proto_run.cases) (auto dest: proto_step_closed)

lemma proto_step_stays_open:
  "proto_step p e q \<Longrightarrow> client_open p \<Longrightarrow> e \<noteq> EvClose \<Longrightarrow> client_open q"
  by (induction rule: proto_step.induct) auto

lemma proto_step_close: "proto_step p EvClose q \<Longrightarrow> q = Closed"
  by (cases rule: proto_step.cases) auto

lemma proto_step_new_client: "proto_step p EvNewClient q \<Longrightarrow> p = Start"
  by (cases rule: proto_step.cases) (auto elim: is_submit.elims is_estimate.elims)

lemma proto_step_not_start: "proto_step p e q \<Longrightarrow> q \<noteq> Start"
  by (cases rule: proto_step.cases) auto

lemma proto_run_closes_once:
  "proto_run p tr q \<Longrightarrow> q = Closed \<Longrightarrow> client_open p
     \<Longrightarrow> \<exists>xs. tr = xs @ [EvClose] \<and> EvClose \<notin> set xs \<and> EvNewClient \<notin> set xs"
proof (induction rule: proto_run.induct)
  case (run_nil p)
  then show ?case by simp
next
  case (run_cons p e q es r)
  show ?case
  proof (cases "e = EvClose")
    case True
    with run_cons.hyps(1) have "q = Closed" by (simp add: proto_step_close)
    with run_cons.hyps(2) have "es = []" by (simp add: proto_run_from_closed)
    with True show ?thesis by simp
  next
    case False
    have "e \<noteq> EvNewClient"
      using run_cons.hyps(1) run_cons.prems(2) proto_step_new_client by fastforce
    moreover from proto_step_stays_open [OF run_cons.hyps(1) run_cons.prems(2) False]
    obtain xs where "es = xs @ [EvClose] \<and> EvClose \<notin> set xs \<and> EvNewClient \<notin> set xs"
      using run_cons.IH run_cons.prems(1) by blast
    ultimately show ?thesis using False by (intro exI [of _ "e # xs"]) simp
  qed
qed

subsection \<open>The shared flow follows the protocol\<close>

lemmas tx_command_splits = sum.splits if_splits prod.splits

lemma tx_command_proto_run:
  assumes "new_client E = Inr u" and "is_estimate est_ev" and "is_submit sub_ev"
  shows "proto_run Start (snd (tx_command E yes intro est_ev est prompt sub_ev sub progress done_msg)) Closed"
  using assms
  by (auto simp: tx_command_def Let_def proto_run_Cons_simp proto_run_Nil_simp proto_step_simps
      split: tx_command_splits)

lemma tx_command_confirm_events:
  "EvConfirm pr b \<in> set (snd (tx_command E yes intro est_ev est prompt sub_ev sub progress done_msg))
     \<Longrightarrow> est_ev \<noteq> EvConfirm pr b \<Longrightarrow> sub_ev \<noteq> EvConfirm pr b
     \<Longrightarrow> pr = prompt \<and> b = confirm E prompt"
  by (auto simp: tx_command_def Let_def split: tx_command_splits)

lemma tx_command_submit_events:
  "e \<in> set (snd (tx_command E yes intro est_ev est prompt sub_ev sub progress done_msg)) \<Longrightarrow> is_submit e
     \<Longrightarrow> \<not> is_submit est_ev \<Longrightarrow> e = sub_ev"
  by (auto simp: tx_command_def Let_def split: tx_command_splits)

lemma tx_command_new_client_fails:
  "new_client E = Inl err
     \<Longrightarrow> tx_command E yes intro est_ev est prompt sub_ev sub progress done_msg = (Some err, [EvNewClient])"
  by (simp add: tx_command_def)

lemma tx_command_nil:
  "fst (tx_command E yes intro est_ev est prompt sub_ev sub progress done_msg) = None \<longleftrightarrow>
     (\<exists>u g v. new_client E = Inr u \<and> est = Inr g \<and> assign_max_fee_and_limit E g yes = Inr v
        \<and> (confirm E prompt \<longrightarrow> (\<exists>h w. sub = Inr h \<and> wait_for_transaction E h = Inr w)))"
  by (auto simp: tx_command_def Let_def split: tx_command_splits)

lemma tx_command_waits_for_submitted:
  "EvWaitForTransaction h \<in> set (snd (tx_command E yes intro est_ev est prompt sub_ev sub progress done_msg))
     \<Longrightarrow> est_ev \<noteq> EvWaitForTransaction h \<Longrightarrow> sub_ev \<noteq> EvWaitForTransaction h
     \<Longrightarrow> sub = Inr h \<and> confirm E prompt"
  by (auto simp: tx_command_def Let_def split: tx_command_splits)


lemma proto_step_from_start: "proto_step Start e q \<Longrightarrow> e = EvNewClient \<and> q = Opened"
  by (cases rule: proto_step.cases) auto

lemma proto_run_start_closed:
  assumes "proto_run Start tr Closed"
  shows "\<exists>xs. tr = EvNewClient # xs @ [EvClose] \<and> EvClose \<notin> set xs \<and> EvNewClient \<notin> set xs"
proof -
  from assms obtain e es q where tr: "tr = e # es" and st: "proto_step Start e q" and run: "proto_run q es Closed"
    by (cases rule: proto_run.cases) auto
  from proto_step_from_start [OF st] have "e = EvNewClient" and "q = Opened" by simp_all
  with proto_run_closes_once [OF run] tr show ?thesis by simp
qed

lemma tx_command_submit_confirmed:
  assumes tr: "snd (tx_command E yes intro est_ev est prompt sub_ev sub progress done_msg) = xs @ e # ys"
    and sub: "is_submit e" and est_ev: "is_estimate est_ev" and sub_ev: "is_submit sub_ev"
  shows "e = sub_ev \<and> EvConfirm prompt True \<in> set xs \<and> confirm E prompt"
proof -
  obtain u where u: "new_client E = Inr u"
    using tr sub by (cases "new_client E") (auto simp: tx_command_new_client_fails Cons_eq_append_conv)
  have "proto_run Start (snd (tx_command E yes intro est_ev est prompt sub_ev sub progress done_msg)) Closed"
    using u est_ev sub_ev by (rule tx_command_proto_run)
  then have run: "proto_run Start (xs @ e # ys) Closed" by (simp only: tr)
  obtain pr where pr: "EvConfirm pr True \<in> set xs"
    using proto_run_submit_confirmed [OF run refl sub] by auto
  then have "EvConfirm pr True \<in> set (snd (tx_command E yes intro est_ev est prompt sub_ev sub progress done_msg))"
    using tr by simp
  moreover have "est_ev \<noteq> EvConfirm pr True" using est_ev by (auto elim: is_estimate.elims)
  moreover have "sub_ev \<noteq> EvConfirm pr True" using sub_ev by (auto elim: is_submit.elims)
  ultimately have c: "pr = prompt \<and> True = confirm E prompt" by (rule tx_command_confirm_events)
  have "e \<in> set (snd (tx_command E yes intro est_ev est prompt sub_ev sub progress done_msg))"
    using tr by simp
  moreover have "\<not> is_submit est_ev" using est_ev by (auto elim: is_estimate.elims)
  ultimately have "e = sub_ev" using sub tx_command_submit_events by blast
  with c pr show ?thesis by simp
qed

subsection \<open>The example runs\<close>

lemma ex_set_ens_name_run:
  "set_ens_name ex_ens_env True ''node.eth'' =
     (None, [EvNewClient, EvPrint (set_ens_name_intro ''node.eth''), EvEstimateSetEnsName ''node.eth'',
             EvAssignMaxFee 21000 True, EvConfirm set_ens_name_prompt True] @ EvSetEnsName ''node.eth''
           # [EvPrint (''Setting ENS name...'' @ nl), EvPrintTxHash 7, EvWaitForTransaction 7,
              EvPrint (set_ens_name_done ''node.eth''), EvClose])"
  by (simp add: set_ens_name_def ex_ens_env_def Let_def)

lemma ex_set_ens_avatar_run:
  "set_ens_avatar ex_ens_env False ''erc721'' 5 12 =
     (None, [EvNewClient, EvPrint (set_ens_avatar_intro ex_ens_env ''erc721'' 5 12), EvEstimateSetEnsAvatar ''erc721'' 5 12,
             EvAssignMaxFee 42000 False, EvConfirm set_ens_avatar_prompt True] @ EvSetEnsAvatar ''erc721'' 5 12
           # [EvPrint (''Setting ENS avatar...'' @ nl), EvPrintTxHash 8, EvWaitForTransaction 8,
              EvPrint (set_ens_avatar_done ex_ens_env ''erc721'' 5 12), EvClose])"
  by (simp add: set_ens_avatar_def Let_def) (simp add: ex_ens_env_def)

section \<open>Properties of the commands\<close>

text \<open>
  C19. \<open>setEnsName\<close> follows the client protocol: once the client is open, the calls it
  makes are a run of the automaton \<open>proto_step\<close> from \<open>Start\<close> to \<open>Closed\<close>, on
  every path (errors, cancellation, success).
\<close>

theorem set_ens_name_follows_protocol:
  assumes "new_client E = Inr u"
  shows "proto_run Start (snd (set_ens_name E yes name)) Closed"
  unfolding set_ens_name_flow using assms by (rule tx_command_proto_run) simp_all

theorem set_ens_name_follows_protocol_witness:
  "new_client ex_ens_env = Inr () \<and> proto_run Start (snd (set_ens_name ex_ens_env True ''node.eth'')) Closed"
  using set_ens_name_follows_protocol [of ex_ens_env "()" True "''node.eth''"] by (simp add: ex_ens_env_def)

text \<open>
  C20. \<open>setEnsName\<close> sends a transaction only after the user answered yes to its own
  prompt, and the transaction it sends sets the name it was given.
\<close>

theorem set_ens_name_submits_only_when_confirmed:
  assumes "snd (set_ens_name E yes name) = xs @ e # ys" and "is_submit e"
  shows "e = EvSetEnsName name \<and> EvConfirm set_ens_name_prompt True \<in> set xs \<and> confirm E set_ens_name_prompt"
  using assms unfolding set_ens_name_flow by (rule tx_command_submit_confirmed) simp_all

theorem set_ens_name_submits_only_when_confirmed_witness:
  "snd (set_ens_name ex_ens_env True ''node.eth'') =
     [EvNewClient, EvPrint (set_ens_name_intro ''node.eth''), EvEstimateSetEnsName ''node.eth'',
      EvAssignMaxFee 21000 True, EvConfirm set_ens_name_prompt True] @ EvSetEnsName ''node.eth''
     # [EvPrint (''Setting ENS name...'' @ nl), EvPrintTxHash 7, EvWaitForTransaction 7,
        EvPrint (set_ens_name_done ''node.eth''), EvClose]
   \<and> is_submit (EvSetEnsName ''node.eth'' :: (nat, nat) event)
   \<and> confirm ex_ens_env set_ens_name_prompt"
proof -
  have tr: "snd (set_ens_name ex_ens_env True ''node.eth'') =
     [EvNewClient, EvPrint (set_ens_name_intro ''node.eth''), EvEstimateSetEnsName ''node.eth'',
      EvAssignMaxFee 21000 True, EvConfirm set_ens_name_prompt True] @ EvSetEnsName ''node.eth''
     # [EvPrint (''Setting ENS name...'' @ nl), EvPrintTxHash 7, EvWaitForTransaction 7,
        EvPrint (set_ens_name_done ''node.eth''), EvClose]"
    using ex_set_ens_name_run by simp
  have sub: "is_submit (EvSetEnsName ''node.eth'' :: (nat, nat) event)" by simp
  from tr sub set_ens_name_submits_only_when_confirmed [OF tr sub] show ?thesis by blast
qed


text \<open>
  C21. The deferred \<open>rp.Close()\<close>: the client is opened once and closed exactly once,
  as the command's last call, precisely when \<open>NewClientFromCtx\<close> succeeded; when it
  fails nothing is closed.
\<close>

theorem set_ens_name_closes_client_once:
  "(\<exists>xs. snd (set_ens_name E yes name) = EvNewClient # xs @ [EvClose]
       \<and> EvClose \<notin> set xs \<and> EvNewClient \<notin> set xs)
   \<longleftrightarrow> (\<exists>u. new_client E = Inr u)"
proof
  assume "\<exists>xs. snd (set_ens_name E yes name) = EvNewClient # xs @ [EvClose]
       \<and> EvClose \<notin> set xs \<and> EvNewClient \<notin> set xs"
  then show "\<exists>u. new_client E = Inr u"
    by (cases "new_client E") (auto simp: set_ens_name_flow tx_command_new_client_fails)
next
  assume "\<exists>u. new_client E = Inr u"
  then obtain u where u: "new_client E = Inr u" ..
  have "proto_run Start (snd (set_ens_name E yes name)) Closed"
    unfolding set_ens_name_flow by (rule tx_command_proto_run [OF u]) simp_all
  then show "\<exists>xs. snd (set_ens_name E yes name) = EvNewClient # xs @ [EvClose]
       \<and> EvClose \<notin> set xs \<and> EvNewClient \<notin> set xs"
    by (rule proto_run_start_closed)
qed

text \<open>
  C22. \<open>setEnsName\<close> returns \<open>nil\<close> exactly when the client opened, the estimate and
  the fee assignment succeeded, and either the user declined or the transaction was
  sent and mined: a declined confirmation returns \<open>nil\<close> like a success.
\<close>

theorem set_ens_name_returns_nil:
  "fst (set_ens_name E yes name) = None \<longleftrightarrow>
     (\<exists>u g v. new_client E = Inr u \<and> estimate_gas_set_ens_name E name = Inr g
        \<and> assign_max_fee_and_limit E g yes = Inr v
        \<and> (confirm E set_ens_name_prompt \<longrightarrow>
             (\<exists>h w. rp_set_ens_name E name = Inr h \<and> wait_for_transaction E h = Inr w)))"
  unfolding set_ens_name_flow by (rule tx_command_nil)

theorem set_ens_name_returns_nil_witness:
  "fst (set_ens_name (ex_ens_env\<lparr>confirm := (\<lambda>_. False)\<rparr>) True ''node.eth'') = None
   \<and> \<not> confirm (ex_ens_env\<lparr>confirm := (\<lambda>_. False)\<rparr>) set_ens_name_prompt
   \<and> EvSetEnsName ''node.eth'' \<notin> set (snd (set_ens_name (ex_ens_env\<lparr>confirm := (\<lambda>_. False)\<rparr>) True ''node.eth''))"
proof -
  have "new_client (ex_ens_env\<lparr>confirm := (\<lambda>_. False)\<rparr>) = Inr ()
     \<and> estimate_gas_set_ens_name (ex_ens_env\<lparr>confirm := (\<lambda>_. False)\<rparr>) ''node.eth'' = Inr 21000
     \<and> assign_max_fee_and_limit (ex_ens_env\<lparr>confirm := (\<lambda>_. False)\<rparr>) 21000 True = Inr ()
     \<and> \<not> confirm (ex_ens_env\<lparr>confirm := (\<lambda>_. False)\<rparr>) set_ens_name_prompt"
    by (simp add: ex_ens_env_def)
  then have "fst (set_ens_name (ex_ens_env\<lparr>confirm := (\<lambda>_. False)\<rparr>) True ''node.eth'') = None"
    using set_ens_name_returns_nil [of "ex_ens_env\<lparr>confirm := (\<lambda>_. False)\<rparr>" True "''node.eth''"] by blast
  moreover have "EvSetEnsName ''node.eth'' \<notin> set (snd (set_ens_name (ex_ens_env\<lparr>confirm := (\<lambda>_. False)\<rparr>) True ''node.eth''))"
    by (simp add: set_ens_name_def ex_ens_env_def Let_def)
  ultimately show ?thesis by (simp add: ex_ens_env_def)
qed

text \<open>
  C23. \<open>setEnsAvatar\<close> follows the same client protocol as \<open>setEnsName\<close>.
\<close>

theorem set_ens_avatar_follows_protocol:
  assumes "new_client E = Inr u"
  shows "proto_run Start (snd (set_ens_avatar E yes erc_type contract_address token_id)) Closed"
  unfolding set_ens_avatar_flow using assms by (rule tx_command_proto_run) simp_all

theorem set_ens_avatar_follows_protocol_witness:
  "new_client ex_ens_env = Inr ()
   \<and> proto_run Start (snd (set_ens_avatar ex_ens_env False ''erc721'' 5 12)) Closed"
  using set_ens_avatar_follows_protocol [of ex_ens_env "()" False "''erc721''" 5 12] by (simp add: ex_ens_env_def)

text \<open>
  C24. \<open>setEnsAvatar\<close> sends a transaction only after the user answered yes to its own
  prompt, and the transaction sets the avatar it was given.
\<close>

theorem set_ens_avatar_submits_only_when_confirmed:
  assumes "snd (set_ens_avatar E yes erc_type contract_address token_id) = xs @ e # ys" and "is_submit e"
  shows "e = EvSetEnsAvatar erc_type contract_address token_id
     \<and> EvConfirm set_ens_avatar_prompt True \<in> set xs \<and> confirm E set_ens_avatar_prompt"
  using assms unfolding set_ens_avatar_flow by (rule tx_command_submit_confirmed) simp_all

theorem set_ens_avatar_submits_only_when_confirmed_witness:
  "snd (set_ens_avatar ex_ens_env False ''erc721'' 5 12) =
     [EvNewClient, EvPrint (set_ens_avatar_intro ex_ens_env ''erc721'' 5 12), EvEstimateSetEnsAvatar ''erc721'' 5 12,
      EvAssignMaxFee 42000 False, EvConfirm set_ens_avatar_prompt True] @ EvSetEnsAvatar ''erc721'' 5 12
     # [EvPrint (''Setting ENS avatar...'' @ nl), EvPrintTxHash 8, EvWaitForTransaction 8,
        EvPrint (set_ens_avatar_done ex_ens_env ''erc721'' 5 12), EvClose]
   \<and> is_submit (EvSetEnsAvatar ''erc721'' 5 12 :: (nat, nat) event)
   \<and> confirm ex_ens_env set_ens_avatar_prompt"
proof -
  have tr: "snd (set_ens_avatar ex_ens_env False ''erc721'' 5 12) =
     [EvNewClient, EvPrint (set_ens_avatar_intro ex_ens_env ''erc721'' 5 12), EvEstimateSetEnsAvatar ''erc721'' 5 12,
      EvAssignMaxFee 42000 False, EvConfirm set_ens_avatar_prompt True] @ EvSetEnsAvatar ''erc721'' 5 12
     # [EvPrint (''Setting ENS avatar...'' @ nl), EvPrintTxHash 8, EvWaitForTransaction 8,
        EvPrint (set_ens_avatar_done ex_ens_env ''erc721'' 5 12), EvClose]"
    using ex_set_ens_avatar_run by simp
  have sub: "is_submit (EvSetEnsAvatar ''erc721'' 5 12 :: (nat, nat) event)" by simp
  from tr sub set_ens_avatar_submits_only_when_confirmed [OF tr sub] show ?thesis by blast
qed

text \<open>
  C25. The transaction \<open>setEnsName\<close> waits for is the one it sent, and it waits only
  after the user confirmed.
\<close>

theorem set_ens_name_waits_for_own_transaction:
  assumes "EvWaitForTransaction h \<in> set (snd (set_ens_name E yes name))"
  shows "rp_set_ens_name E name = Inr h \<and> confirm E set_ens_name_prompt"
  using assms unfolding set_ens_name_flow by (rule tx_command_waits_for_submitted) simp_all

theorem set_ens_name_waits_for_own_transaction_witness:
  "EvWaitForTransaction 7 \<in> set (snd (set_ens_name ex_ens_env True ''node.eth''))
   \<and> rp_set_ens_name ex_ens_env ''node.eth'' = Inr 7 \<and> confirm ex_ens_env set_ens_name_prompt"
proof -
  have w: "EvWaitForTransaction 7 \<in> set (snd (set_ens_name ex_ens_env True ''node.eth''))"
    using ex_set_ens_name_run by simp
  from w set_ens_name_waits_for_own_transaction [OF w] show ?thesis by blast
qed

end
