(* ===== verification/GoFloat.thy ===== *)
theory GoFloat
  imports GoStrings "HOL-Library.Log_Nat"
begin

text \<open>
  \<open>strconv.ParseFloat(s, 64)\<close> and the \<open>float64\<close> comparisons the validators of
  \<open>src/shared/utils/cli/validation.go\<close> use. A \<open>float64\<close> is a finite double, given by
  its rational value (so \<open>+0\<close> and \<open>-0\<close>, which compare equal, are one value), an
  infinity or NaN. \<open>parse_float\<close> follows the Go library's \<open>atof.go\<close>: first
  \<open>special\<close> (the case-insensitive words \<open>inf\<close>, \<open>infinity\<close> with an optional
  sign, and \<open>nan\<close> without one), then \<open>readFloat\<close> (an optional sign, a decimal or
  \<open>0x\<close> hexadecimal mantissa with at most one dot and \<open>_\<close> separators, an exponent
  \<open>e\<close> or \<open>p\<close>, which a hexadecimal mantissa must have, capped at 10000 as Go caps
  it, and the underscore rule of \<open>underscoreOK\<close>); the whole string must be consumed.
  The exact value is then rounded to the nearest double, ties to even
  (\<open>round_f64\<close>); a value that rounds past the largest double is the range error
  \<open>ParseFloat\<close> returns with an infinity. Every error is \<open>None\<close>.
\<close>

section \<open>Doubles\<close>

datatype float64 = F64 rat | PosInf | NegInf | NaN

text \<open>The IEEE comparisons Go compiles \<open><\<close>, \<open><=\<close> and \<open>==\<close> to: false on NaN.\<close>

fun f_lt :: "float64 \<Rightarrow> float64 \<Rightarrow> bool" where
  "f_lt NaN _ = False"
| "f_lt _ NaN = False"
| "f_lt NegInf NegInf = False"
| "f_lt NegInf _ = True"
| "f_lt _ NegInf = False"
| "f_lt PosInf _ = False"
| "f_lt _ PosInf = True"
| "f_lt (F64 a) (F64 b) = (a < b)"

fun f_eq :: "float64 \<Rightarrow> float64 \<Rightarrow> bool" where
  "f_eq (F64 a) (F64 b) = (a = b)"
| "f_eq PosInf PosInf = True"
| "f_eq NegInf NegInf = True"
| "f_eq _ _ = False"

definition f_le :: "float64 \<Rightarrow> float64 \<Rightarrow> bool" where
  "f_le x y \<longleftrightarrow> f_lt x y \<or> f_eq x y"

section \<open>Rounding to the nearest double\<close>

definition pow2 :: "int \<Rightarrow> rat" where
  "pow2 e = (if 0 \<le> e then 2 ^ nat e else inverse (2 ^ nat (- e)))"

text \<open>\<open>\<lfloor>log\<^sub>2 q\<rfloor>\<close> of a positive rational, from the bit lengths of its numerator and denominator.\<close>

definition log2_floor :: "rat \<Rightarrow> int" where
  "log2_floor q = (let (a, b) = quotient_of q; e = bitlen a - bitlen b in if pow2 e \<le> q then e else e - 1)"

definition round_half_even :: "rat \<Rightarrow> int" where
  "round_half_even x =
     (let f = \<lfloor>x\<rfloor>; d = x - of_int f in
      if 1 / 2 < d then f + 1 else if d < 1 / 2 then f else if even f then f else f + 1)"

text \<open>
  binary64: 53 significant bits, exponents from -1022 (below that the spacing stays
  \<open>2^-1074\<close>, the subnormals) to 1023; a result of \<open>2^1024\<close> or more overflows.
\<close>

definition round_f64 :: "rat \<Rightarrow> rat option" where
  "round_f64 q =
     (if q = 0 then Some 0
      else
        (let a = \<bar>q\<bar>; e = max (log2_floor a) (-1022); ulp = pow2 (e - 52);
             r = of_int (round_half_even (a / ulp)) * ulp
         in if pow2 1024 \<le> r then None else Some (if q < 0 then - r else r)))"

section \<open>Parsing\<close>

definition is_hex_digit :: "char \<Rightarrow> bool" where
  "is_hex_digit c \<longleftrightarrow> is_digit c \<or> (97 \<le> byte_of (ascii_lower c) \<and> byte_of (ascii_lower c) \<le> 102)"

definition hex_val :: "char \<Rightarrow> nat" where
  "hex_val c = (if is_digit c then digit_val c else byte_of (ascii_lower c) - 87)"

definition digits_val :: "nat \<Rightarrow> string \<Rightarrow> nat" where
  "digits_val base ds = foldl (\<lambda>n c. base * n + hex_val c) 0 ds"

text \<open>\<open>commonPrefixLenIgnoreCase(s, prefix)\<close>; the prefixes are lower case.\<close>

fun common_prefix_len_ignore_case :: "string \<Rightarrow> string \<Rightarrow> nat" where
  "common_prefix_len_ignore_case (c # cs) (p # ps) =
     (if ascii_lower c = p then Suc (common_prefix_len_ignore_case cs ps) else 0)"
| "common_prefix_len_ignore_case _ _ = 0"

definition special_inf :: "float64 \<Rightarrow> nat \<Rightarrow> string \<Rightarrow> (float64 \<times> nat) option" where
  "special_inf f nsign s =
     (let n = common_prefix_len_ignore_case s ''infinity'';
          n = (if 3 < n \<and> n < 8 then 3 else n)
      in if n = 3 \<or> n = 8 then Some (f, nsign + n) else None)"

text \<open>\<open>special(s)\<close>: the value and the number of bytes consumed.\<close>

definition special :: "string \<Rightarrow> (float64 \<times> nat) option" where
  "special s =
     (case s of
        [] \<Rightarrow> None
      | c # cs \<Rightarrow>
          (if c = CHR ''+'' then special_inf PosInf 1 cs
           else if c = CHR ''-'' then special_inf NegInf 1 cs
           else if c = CHR ''i'' \<or> c = CHR ''I'' then special_inf PosInf 0 s
           else if (c = CHR ''n'' \<or> c = CHR ''N'') \<and> common_prefix_len_ignore_case s ''nan'' = 3
           then Some (NaN, 3)
           else None))"

text \<open>
  The mantissa loop of \<open>readFloat\<close>: the digits read (leading zeros included, which
  do not change the value), the number of digits before the dot if there was one,
  whether an underscore was seen, and the unread rest.
\<close>

fun scan_mantissa :: "bool \<Rightarrow> string \<Rightarrow> nat option \<Rightarrow> bool \<Rightarrow> string \<Rightarrow> string \<times> nat option \<times> bool \<times> string" where
  "scan_mantissa hex ds dp us [] = (ds, dp, us, [])"
| "scan_mantissa hex ds dp us (c # cs) =
     (if c = CHR ''_'' then scan_mantissa hex ds dp True cs
      else if c = CHR ''.'' then
        (if dp \<noteq> None then (ds, dp, us, c # cs) else scan_mantissa hex ds (Some (length ds)) us cs)
      else if is_digit c \<or> (hex \<and> is_hex_digit c) then scan_mantissa hex (ds @ [c]) dp us cs
      else (ds, dp, us, c # cs))"

fun scan_exponent :: "nat \<Rightarrow> bool \<Rightarrow> string \<Rightarrow> nat \<times> bool \<times> string" where
  "scan_exponent e us [] = (e, us, [])"
| "scan_exponent e us (c # cs) =
     (if c = CHR ''_'' then scan_exponent e True cs
      else if is_digit c then scan_exponent (if e < 10000 then e * 10 + digit_val c else e) us cs
      else (e, us, c # cs))"

text \<open>\<open>underscoreOK\<close>: an underscore only between digits, or after the base prefix.\<close>

datatype saw = SawBegin | SawDigit | SawUnderscore | SawOther

fun underscore_scan :: "bool \<Rightarrow> saw \<Rightarrow> string \<Rightarrow> bool" where
  "underscore_scan hex s [] = (s \<noteq> SawUnderscore)"
| "underscore_scan hex s (c # cs) =
     (if is_digit c \<or> (hex \<and> is_hex_digit c) then underscore_scan hex SawDigit cs
      else if c = CHR ''_'' then s = SawDigit \<and> underscore_scan hex SawUnderscore cs
      else if s = SawUnderscore then False
      else underscore_scan hex SawOther cs)"

definition strip_sign :: "string \<Rightarrow> bool \<times> string" where
  "strip_sign s =
     (case s of
        c # cs \<Rightarrow> (if c = CHR ''+'' then (False, cs) else if c = CHR ''-'' then (True, cs) else (False, s))
      | [] \<Rightarrow> (False, []))"

definition underscore_ok :: "string \<Rightarrow> bool" where
  "underscore_ok s =
     (let s1 = snd (strip_sign s) in
      if 2 \<le> length s1 \<and> s1 ! 0 = CHR ''0'' \<and> ascii_lower (s1 ! 1) \<in> {CHR ''b'', CHR ''o'', CHR ''x''}
      then underscore_scan (ascii_lower (s1 ! 1) = CHR ''x'') SawDigit (drop 2 s1)
      else underscore_scan False SawBegin s1)"

text \<open>\<open>readFloat\<close> followed by \<open>ParseFloat\<close>'s check that all of \<open>s\<close> was read: the exact value.\<close>

definition read_float :: "string \<Rightarrow> rat option" where
  "read_float s =
     (let (neg, s1) = strip_sign s;
          hex = (2 < length s1 \<and> s1 ! 0 = CHR ''0'' \<and> ascii_lower (s1 ! 1) = CHR ''x'');
          (ds, dp, us1, r) = scan_mantissa hex [] None False (if hex then drop 2 s1 else s1)
      in if ds = [] then None
         else
           (let dpos = (case dp of None \<Rightarrow> length ds | Some d \<Rightarrow> d);
                expo =
                  (case r of
                     c # r' \<Rightarrow>
                       (if ascii_lower c = (if hex then CHR ''p'' else CHR ''e'') then
                          (let (esign, r2) =
                             (case r' of
                                d # t \<Rightarrow> (if d = CHR ''+'' then (1, t) else if d = CHR ''-'' then (-1, t) else (1, r'))
                              | [] \<Rightarrow> (1, r'))
                           in case r2 of
                                d # _ \<Rightarrow>
                                  (if is_digit d then
                                     (let (e, us2, r3) = scan_exponent 0 False r2 in Some (esign * int e, us2, r3))
                                   else None)
                              | [] \<Rightarrow> None)
                        else if hex then None else Some (0, False, r))
                   | [] \<Rightarrow> if hex then None else Some (0, False, r))
            in case expo of
                 None \<Rightarrow> None
               | Some (e, us2, r3) \<Rightarrow>
                   (if r3 \<noteq> [] then None
                    else if (us1 \<or> us2) \<and> \<not> underscore_ok s then None
                    else
                      (let v = (if hex then of_nat (digits_val 16 ds) * pow2 (4 * int dpos - 4 * int (length ds) + e)
                                else of_nat (digits_val 10 ds) * 10 powi (int dpos - int (length ds) + e))
                       in Some (if neg then - v else v)))))"

definition parse_float :: "string \<Rightarrow> float64 option" where
  "parse_float s =
     (case special s of
        Some (f, n) \<Rightarrow> (if n = length s then Some f else None)
      | None \<Rightarrow> (case read_float s of None \<Rightarrow> None | Some q \<Rightarrow> map_option F64 (round_f64 q)))"

section \<open>Lemmas\<close>

subsection \<open>Case-insensitive words\<close>

lemma ascii_lower_eq_letter:
  assumes "(97::nat) \<le> of_char d" and "of_char d \<le> (122::nat)"
  shows "ascii_lower c = d \<longleftrightarrow> c = d \<or> of_char c + 32 = (of_char d :: nat)"
proof -
  have c: "of_char c < (256::nat)" by (rule nat_of_char_less_256)
  have d: "of_char d < (256::nat)" by (rule nat_of_char_less_256)
  show ?thesis
  proof (cases "(65::nat) \<le> of_char c \<and> of_char c \<le> (90::nat)")
    case True
    then have "ascii_lower c = char_of (of_char c + 32 :: nat)" by (simp add: ascii_lower_def byte_of_def)
    moreover have "char_of (of_char c + 32 :: nat) = d \<longleftrightarrow> of_char c + 32 = (of_char d :: nat)"
    proof -
      have "char_of (of_char c + 32 :: nat) = d \<longleftrightarrow> char_of (of_char c + 32 :: nat) = char_of (of_char d :: nat)"
        by simp
      also have "\<dots> \<longleftrightarrow> (of_char c + 32) mod 256 = (of_char d :: nat) mod 256"
        by (rule char_of_quasi_inj)
      also have "\<dots> \<longleftrightarrow> of_char c + 32 = (of_char d :: nat)"
        using True d by simp
      finally show ?thesis .
    qed
    moreover have "c \<noteq> d" using True assms by auto
    ultimately show ?thesis by simp
  next
    case False
    then have "ascii_lower c = c" by (auto simp: ascii_lower_def byte_of_def)
    moreover have "of_char c + 32 \<noteq> (of_char d :: nat)" using False assms by auto
    ultimately show ?thesis by auto
  qed
qed


lemma ascii_lower_eq_n: "ascii_lower c = CHR ''n'' \<longleftrightarrow> c = CHR ''n'' \<or> c = CHR ''N''"
proof -
  have "ascii_lower c = CHR ''n'' \<longleftrightarrow> c = CHR ''n'' \<or> of_char c + 32 = (110::nat)"
    using ascii_lower_eq_letter [of "CHR ''n''" c] by simp
  also have "of_char c + 32 = (110::nat) \<longleftrightarrow> c = CHR ''N''"
  proof
    assume "of_char c + 32 = (110::nat)"
    then have "of_char c = (78::nat)" by simp
    then have "(of_char c :: nat) = of_char (CHR ''N'')" by simp
    then show "c = CHR ''N''" by (metis char_of_char)
  qed simp
  finally show ?thesis .
qed

lemma common_prefix_len_le: "common_prefix_len_ignore_case s p \<le> length s"
  by (induction s p rule: common_prefix_len_ignore_case.induct) auto

lemma special_inf_not_nan: "special_inf f k s = Some (g, n) \<Longrightarrow> g = f"
  by (auto simp: special_def special_inf_def Let_def split: if_splits)

lemma common_prefix_len_full:
  "common_prefix_len_ignore_case s p = length p \<and> length s = length p \<longleftrightarrow> map ascii_lower s = p"
  by (induction s p rule: common_prefix_len_ignore_case.induct) auto

lemma special_NaN: "special s = Some (NaN, n) \<Longrightarrow> n = 3 \<and> common_prefix_len_ignore_case s ''nan'' = 3"
proof (cases s)
  case Nil
  then show "special s = Some (NaN, n) \<Longrightarrow> ?thesis" by (simp add: special_def)
next
  case (Cons c cs)
  have "special_inf f k t \<noteq> Some (NaN, n)" if "f \<noteq> NaN" for f k t
    using special_inf_not_nan that by blast
  then show "special s = Some (NaN, n) \<Longrightarrow> ?thesis"
    using Cons by (simp add: special_def split: if_splits)
qed


lemma special_nan_word: "map ascii_lower s = ''nan'' \<Longrightarrow> special s = Some (NaN, 3)"
proof -
  assume m: "map ascii_lower s = ''nan''"
  then have l: "length s = 3" using length_map [of ascii_lower s] by simp
  obtain a b c where s3: "s = [a, b, c]"
    using l by (cases s; cases "tl s"; cases "tl (tl s)"; cases "tl (tl (tl s))") auto
  with m have "ascii_lower a = CHR ''n''" and bc: "ascii_lower b = CHR ''a''" "ascii_lower c = CHR ''n''"
    by simp_all
  note s = s3
  have a: "a = CHR ''n'' \<or> a = CHR ''N''" using \<open>ascii_lower a = CHR ''n''\<close> by (simp add: ascii_lower_eq_n)
  have "common_prefix_len_ignore_case s ''nan'' = 3"
    using s \<open>ascii_lower a = CHR ''n''\<close> bc by simp
  with a s show ?thesis by (auto simp: special_def)
qed




subsection \<open>Rounding\<close>

lemma pow2_nonpos: "e \<le> 0 \<Longrightarrow> pow2 e = inverse (2 ^ nat (- e))"
  by (cases "e = 0") (auto simp: pow2_def)

lemma round_half_even_int [simp]: "round_half_even (of_int m) = m"
  by (simp add: round_half_even_def)

lemma log2_floor_nat_le:
  assumes "n < 2 ^ 53"
  shows "log2_floor (of_nat n) \<le> 52"
proof -
  have q: "quotient_of (of_nat n :: rat) = (int n, 1)"
    using quotient_of_int [of "int n"] by simp
  have b1: "bitlen 1 = 1" by (simp add: compute_bitlen)
  have "bitlen (int n) \<le> 53"
    using assms by (simp add: bitlen_le_iff_power)
  then show ?thesis
    by (simp add: log2_floor_def q b1 Let_def)
qed

lemma round_f64_nat:
  assumes "n < 2 ^ 53"
  shows "round_f64 (of_nat n) = Some (of_nat n)"
proof (cases "n = 0")
  case True
  then show ?thesis by (simp add: round_f64_def)
next
  case False
  define e where "e = max (log2_floor (of_nat n)) (-1022)"
  define k where "k = nat (52 - e)"
  have e: "e \<le> 52" using log2_floor_nat_le [OF assms] by (simp add: e_def)
  have ulp: "pow2 (e - 52) = inverse (2 ^ k)"
    using e by (simp add: pow2_nonpos k_def)
  have div: "of_nat n / pow2 (e - 52) = (of_int (int n * 2 ^ k) :: rat)"
    by (simp add: ulp divide_inverse)
  have r: "of_int (int n * 2 ^ k) * pow2 (e - 52) = (of_nat n :: rat)"
    by (simp add: ulp)
  have "(of_nat n :: rat) < 2 ^ 53" using assms by (metis of_nat_less_numeral_power_cancel_iff)
  also have "(2 :: rat) ^ 53 \<le> pow2 1024" by (simp add: pow2_def)
  finally have big: "\<not> pow2 1024 \<le> (of_nat n :: rat)" "\<not> pow2 1024 < (of_nat n :: rat)" by simp_all
  have rh: "round_half_even (of_nat n / pow2 (e - 52)) = int n * 2 ^ k"
    by (simp only: div round_half_even_int)
  have abs: "\<bar>of_nat n :: rat\<bar> = of_nat n" by simp
  show ?thesis
    using False big unfolding round_f64_def Let_def abs e_def [symmetric] rh r by simp
qed


subsection \<open>Decimal integers\<close>

lemma is_digit_chars:
  "is_digit c \<Longrightarrow> c \<noteq> CHR ''_'' \<and> c \<noteq> CHR ''.'' \<and> c \<noteq> CHR ''+'' \<and> c \<noteq> CHR ''-''
     \<and> c \<noteq> CHR ''i'' \<and> c \<noteq> CHR ''I'' \<and> c \<noteq> CHR ''n'' \<and> c \<noteq> CHR ''N'' \<and> ascii_lower c = c
     \<and> c \<noteq> CHR ''x''"
  by (auto simp: is_digit_def byte_of_def ascii_lower_def)

lemma scan_mantissa_digits:
  "list_all is_digit s \<Longrightarrow> scan_mantissa hex ds None us s = (ds @ s, None, us, [])"
  by (induction s arbitrary: ds) (auto dest: is_digit_chars)

lemma digits_val_dec: "list_all is_digit ds \<Longrightarrow> digits_val 10 ds = dec_val ds"
proof -
  assume d: "list_all is_digit ds"
  have "foldl (\<lambda>n c. 10 * n + hex_val c) a ds = foldl (\<lambda>n c. 10 * n + digit_val c) a ds" for a
    using d by (induction ds arbitrary: a) (simp_all add: hex_val_def)
  then show ?thesis by (simp add: digits_val_def dec_val_def)
qed

lemma read_float_digits:
  assumes "s \<noteq> []" and d: "list_all is_digit s"
  shows "read_float s = Some (of_nat (dec_val s))"
proof -
  obtain c cs where s: "s = c # cs" using assms(1) by (cases s) auto
  have c: "is_digit c" using d s by simp
  have sign: "strip_sign s = (False, s)"
    using is_digit_chars [OF c] by (simp add: strip_sign_def s)
  have nohex: "\<not> (2 < length s \<and> s ! 0 = CHR ''0'' \<and> ascii_lower (s ! 1) = CHR ''x'')"
  proof
    assume h: "2 < length s \<and> s ! 0 = CHR ''0'' \<and> ascii_lower (s ! 1) = CHR ''x''"
    then have "is_digit (s ! 1)" using d by (simp add: list_all_length)
    then have "ascii_lower (s ! 1) = s ! 1" and "s ! 1 \<noteq> CHR ''x''" using is_digit_chars by blast+
    with h show False by simp
  qed
  then have hx: "(2 < length s \<and> s ! 0 = CHR ''0'' \<and> ascii_lower (s ! 1) = CHR ''x'') = False" by simp
  show ?thesis
    unfolding read_float_def Let_def sign prod.case hx if_False
    using assms by (simp add: scan_mantissa_digits digits_val_dec)
qed

lemma special_digits:
  assumes "s \<noteq> []" and "list_all is_digit s"
  shows "special s = None"
proof -
  obtain c cs where s: "s = c # cs" using assms(1) by (cases s) auto
  then have "is_digit c" using assms(2) by simp
  from is_digit_chars [OF this] show ?thesis by (simp add: special_def s)
qed

lemma parse_float_digits:
  "s \<noteq> [] \<Longrightarrow> list_all is_digit s \<Longrightarrow> parse_float s = map_option F64 (round_f64 (of_nat (dec_val s)))"
  by (simp add: parse_float_def special_digits read_float_digits)

section \<open>Properties of ParseFloat\<close>

text \<open>
  C30. \<open>ParseFloat\<close> returns NaN exactly for the three letters \<open>nan\<close> in any mix of
  cases, with no sign and nothing around them.
\<close>

theorem parse_float_nan: "parse_float s = Some NaN \<longleftrightarrow> go_to_lower s = ''nan''"
proof
  assume "parse_float s = Some NaN"
  then have "special s = Some (NaN, length s)"
    by (auto simp: parse_float_def split: option.splits prod.splits if_splits)
  from special_NaN [OF this] have "common_prefix_len_ignore_case s ''nan'' = length ''nan'' \<and> length s = length ''nan''"
    by simp
  then show "go_to_lower s = ''nan''" by (simp only: common_prefix_len_full go_to_lower_def)
next
  assume "go_to_lower s = ''nan''"
  then have m: "map ascii_lower s = ''nan''" by (simp add: go_to_lower_def)
  then have "length s = 3" using length_map [of ascii_lower s] by simp
  with special_nan_word [OF m] show "parse_float s = Some NaN" by (simp add: parse_float_def)
qed

end
