(* ===== verification/ValidationFloat.thy ===== *)
theory ValidationFloat
  imports Validation GoFloat
begin

text \<open>
  The \<open>float64\<close> validators of \<open>src/shared/utils/cli/validation.go\<close>:
  \<open>ValidateEthAmount\<close>, \<open>ValidateFraction\<close>, \<open>ValidatePercentage\<close>,
  \<open>ValidatePositiveEthAmount\<close> and \<open>ValidateDepositEthAmount\<close>, over the model of
  \<open>strconv.ParseFloat\<close> in \<open>GoFloat\<close>. Their range checks are IEEE comparisons,
  which are all false on NaN: the lemmas show which inputs each validator accepts,
  NaN and the infinities included.
\<close>

section \<open>The validators\<close>

definition validate_eth_amount :: "string \<Rightarrow> string \<Rightarrow> string + float64" where
  "validate_eth_amount name value =
     (case parse_float value of None \<Rightarrow> Inl (invalid name value) | Some val \<Rightarrow> Inr val)"

definition validate_fraction :: "string \<Rightarrow> string \<Rightarrow> string + float64" where
  "validate_fraction name value =
     (case parse_float value of
        None \<Rightarrow> Inl (invalid name value @ '' - must be a number between 0 and 1'')
      | Some val \<Rightarrow>
          (if f_lt val (F64 0) \<or> f_lt (F64 1) val
           then Inl (invalid name value @ '' - must be a number between 0 and 1'')
           else Inr val))"

definition validate_percentage :: "string \<Rightarrow> string \<Rightarrow> string + float64" where
  "validate_percentage name value =
     (case parse_float value of
        None \<Rightarrow> Inl (invalid name value @ '' - must be a number between 0 and 100'')
      | Some val \<Rightarrow>
          (if f_lt val (F64 0) \<or> f_lt (F64 100) val
           then Inl (invalid name value @ '' - must be a number between 0 and 100'')
           else Inr val))"

definition validate_positive_eth_amount :: "string \<Rightarrow> string \<Rightarrow> string + float64" where
  "validate_positive_eth_amount name value =
     (case validate_eth_amount name value of
        Inl e \<Rightarrow> Inl e
      | Inr val \<Rightarrow>
          (if f_le val (F64 0) then Inl (invalid name value @ '' - must be greater than 0'') else Inr val))"

definition validate_deposit_eth_amount :: "string \<Rightarrow> string \<Rightarrow> string + float64" where
  "validate_deposit_eth_amount name value =
     (case validate_eth_amount name value of
        Inl e \<Rightarrow> Inl e
      | Inr val \<Rightarrow>
          (if \<not> (f_eq val (F64 0) \<or> f_eq val (F64 16) \<or> f_eq val (F64 32))
           then Inl (invalid name value @ '' - valid values are 0, 16 and 32 ether'')
           else Inr val))"


section \<open>Lemmas\<close>

lemma f_between:
  "(\<not> (f_lt x (F64 a) \<or> f_lt (F64 b) x)) \<longleftrightarrow> x = NaN \<or> (\<exists>q. x = F64 q \<and> a \<le> q \<and> q \<le> b)"
  by (cases x) auto

lemma f_le_zero: "\<not> f_le x (F64 0) \<longleftrightarrow> x = NaN \<or> x = PosInf \<or> (\<exists>q. x = F64 q \<and> 0 < q)"
  by (cases x) (auto simp: f_le_def)

lemma f_eq_F64: "f_eq x (F64 a) \<longleftrightarrow> x = F64 a"
  by (cases x) auto

section \<open>Properties of the validators\<close>

text \<open>
  C26. \<open>ValidateFraction\<close> accepts exactly the inputs \<open>ParseFloat\<close> reads as NaN or as
  a number between 0 and 1, and returns that value.
\<close>

theorem validate_fraction_accepts:
  "validate_fraction name v = Inr x \<longleftrightarrow>
     parse_float v = Some x \<and> (x = NaN \<or> (\<exists>q. x = F64 q \<and> 0 \<le> q \<and> q \<le> 1))"
  using f_between [of x 0 1]
  by (auto simp: validate_fraction_def split: option.splits)

text \<open>
  C27. \<open>ValidatePositiveEthAmount\<close> accepts exactly the inputs \<open>ParseFloat\<close> reads as a
  positive number, as \<open>+Inf\<close> or as NaN.
\<close>

theorem validate_positive_eth_amount_accepts:
  "validate_positive_eth_amount name v = Inr x \<longleftrightarrow>
     parse_float v = Some x \<and> (x = NaN \<or> x = PosInf \<or> (\<exists>q. x = F64 q \<and> 0 < q))"
  using f_le_zero [of x]
  by (auto simp: validate_positive_eth_amount_def validate_eth_amount_def split: option.splits)

text \<open>
  C28. \<open>ValidateDepositEthAmount\<close> accepts exactly the inputs \<open>ParseFloat\<close> reads as
  0, 16 or 32; NaN and the infinities are rejected.
\<close>

theorem validate_deposit_eth_amount_values:
  "validate_deposit_eth_amount name v = Inr x \<longleftrightarrow>
     parse_float v = Some x \<and> (x = F64 0 \<or> x = F64 16 \<or> x = F64 32)"
  by (cases "parse_float v") (auto simp: validate_deposit_eth_amount_def validate_eth_amount_def f_eq_F64)

text \<open>
  C29. \<open>ValidateEthAmount\<close> reads the decimal form of every integer below \<open>2^53\<close> as
  exactly that integer (every such integer is a double, so no rounding happens).
\<close>

theorem validate_eth_amount_integer:
  assumes n: "n < 2 ^ 53"
  shows "validate_eth_amount name (dec_string n) = Inr (F64 (of_nat n))"
proof -
  have d: "dec_string n \<noteq> []" "list_all is_digit (dec_string n)" by (simp_all add: dec_string_digits)
  have "parse_float (dec_string n) = map_option F64 (round_f64 (of_nat (dec_val (dec_string n))))"
    by (rule parse_float_digits [OF d])
  also have "\<dots> = Some (F64 (of_nat n))" by (simp only: dec_val_dec_string round_f64_nat [OF n] option.map)
  finally show ?thesis by (simp add: validate_eth_amount_def)
qed

theorem validate_eth_amount_integer_witness:
  "(32::nat) < 2 ^ 53 \<and> validate_eth_amount ''amount'' (dec_string 32) = Inr (F64 32)"
proof -
  have n: "(32::nat) < 2 ^ 53" by simp
  have "validate_eth_amount ''amount'' (dec_string 32) = Inr (F64 (of_nat 32))"
    by (rule validate_eth_amount_integer [OF n])
  with n show ?thesis by simp
qed

end
