(* ===== verification/EthAddress.thy ===== *)
theory EthAddress
  imports Validation
begin

text \<open>
  \<open>ValidateAddress\<close> and \<open>ValidateWalletMnemonic\<close> of
  \<open>src/shared/utils/cli/validation.go\<close>. The first calls go-ethereum's
  \<open>common.IsHexAddress\<close> and \<open>common.HexToAddress\<close>, modelled here as that library
  writes them (\<open>has0xPrefix\<close>, \<open>isHex\<close>, \<open>FromHex\<close>, \<open>hex.DecodeString\<close> with
  its error ignored, \<open>BytesToAddress\<close>); a \<open>common.Address\<close> is a 20-byte array,
  here the 160-bit word its bytes spell big-endian. The second calls
  \<open>bip39.IsMnemonicValid\<close>, a word-list and checksum test of a third-party library,
  which the model takes as a parameter.
\<close>

section \<open>go-ethereum hex addresses\<close>

definition has_0x_prefix :: "string \<Rightarrow> bool" where
  "has_0x_prefix s \<longleftrightarrow> 2 \<le> length s \<and> s ! 0 = CHR ''0'' \<and> (s ! 1 = CHR ''x'' \<or> s ! 1 = CHR ''X'')"

definition strip_0x :: "string \<Rightarrow> string" where
  "strip_0x s = (if has_0x_prefix s then drop 2 s else s)"

definition is_hex_character :: "char \<Rightarrow> bool" where
  "is_hex_character c \<longleftrightarrow> is_digit c \<or> (97 \<le> byte_of c \<and> byte_of c \<le> 102) \<or> (65 \<le> byte_of c \<and> byte_of c \<le> 70)"

definition is_hex :: "string \<Rightarrow> bool" where
  "is_hex s \<longleftrightarrow> even (length s) \<and> list_all is_hex_character s"

text \<open>\<open>IsHexAddress\<close>: \<open>AddressLength\<close> is 20 bytes, 40 hex digits.\<close>

definition is_hex_address :: "string \<Rightarrow> bool" where
  "is_hex_address s \<longleftrightarrow> length (strip_0x s) = 2 * 20 \<and> is_hex (strip_0x s)"

definition nibble :: "char \<Rightarrow> nat" where
  "nibble c = (if is_digit c then digit_val c else if 97 \<le> byte_of c then byte_of c - 87 else byte_of c - 55)"

text \<open>
  \<open>hex.DecodeString\<close>: the bytes of the complete pairs read before the first invalid
  character; \<open>Hex2Bytes\<close> drops the error.
\<close>

fun hex_decode :: "string \<Rightarrow> 8 word list" where
  "hex_decode (a # b # rest) =
     (if is_hex_character a \<and> is_hex_character b
      then word_of_nat (16 * nibble a + nibble b) # hex_decode rest else [])"
| "hex_decode _ = []"

definition from_hex :: "string \<Rightarrow> 8 word list" where
  "from_hex s = (let t = strip_0x s in hex_decode (if odd (length t) then CHR ''0'' # t else t))"

text \<open>\<open>BytesToAddress\<close>: the last 20 bytes, right-aligned in the array.\<close>

definition bytes_to_address :: "8 word list \<Rightarrow> address" where
  "bytes_to_address b = word_of_nat (foldl (\<lambda>n x. 256 * n + unat x) 0 (drop (length b - 20) b))"

definition hex_to_address :: "string \<Rightarrow> address" where
  "hex_to_address s = bytes_to_address (from_hex s)"

section \<open>The validators\<close>

definition validate_address :: "string \<Rightarrow> string \<Rightarrow> string + address" where
  "validate_address name value =
     (if \<not> is_hex_address value then Inl (invalid name value) else Inr (hex_to_address value))"

definition validate_wallet_mnemonic :: "(string \<Rightarrow> bool) \<Rightarrow> string \<Rightarrow> string \<Rightarrow> string + string" where
  "validate_wallet_mnemonic is_mnemonic_valid name value =
     (if \<not> is_mnemonic_valid value then Inl (invalid name value) else Inr value)"

section \<open>Lemmas\<close>

lemma nibble_less: "is_hex_character c \<Longrightarrow> nibble c < 16"
  by (auto simp: is_hex_character_def nibble_def is_digit_def digit_val_def)

lemma hex_value_less:
  "list_all is_hex_character s \<Longrightarrow> foldl (\<lambda>a c. 16 * a + nibble c) 0 s < 16 ^ length s"
proof (induction s rule: rev_induct)
  case Nil
  then show ?case by simp
next
  case (snoc c s)
  then have "foldl (\<lambda>a c. 16 * a + nibble c) 0 s < 16 ^ length s" and "nibble c < 16"
    by (simp_all add: nibble_less)
  then show ?case by simp
qed

lemma hex_decode_val:
  "even (length s) \<Longrightarrow> list_all is_hex_character s
     \<Longrightarrow> foldl (\<lambda>n x. 256 * n + unat x) a (hex_decode s) = foldl (\<lambda>n c. 16 * n + nibble c) a s
       \<and> length (hex_decode s) = length s div 2"
proof (induction s arbitrary: a rule: hex_decode.induct)
  case (1 c d rest)
  have "16 * nibble c + nibble d < 256"
    using nibble_less [of c] nibble_less [of d] 1(3) by simp
  moreover have "unat (word_of_nat k :: 8 word) = k" if "k < 256" for k
    using that by (simp add: unat_of_nat)
  ultimately have "unat (word_of_nat (16 * nibble c + nibble d) :: 8 word) = 16 * nibble c + nibble d"
    by blast
  then show ?case using 1 by (simp add: algebra_simps)
qed auto

lemma hex_to_address_value:
  assumes "is_hex_address s"
  shows "unat (hex_to_address s) = foldl (\<lambda>n c. 16 * n + nibble c) 0 (strip_0x s)"
proof -
  let ?t = "strip_0x s"
  have l: "length ?t = 40" and h: "list_all is_hex_character ?t" and e: "even (length ?t)"
    using assms by (simp_all add: is_hex_address_def is_hex_def)
  from hex_decode_val [OF e h, of 0]
  have v: "foldl (\<lambda>n x. 256 * n + unat x) 0 (hex_decode ?t) = foldl (\<lambda>n c. 16 * n + nibble c) 0 ?t"
    and lb: "length (hex_decode ?t) = 20" using l by simp_all
  have "foldl (\<lambda>n c. 16 * n + nibble c) 0 ?t < 2 ^ 160"
    using hex_value_less [OF h] l by simp
  then show ?thesis
    using v lb e by (simp add: hex_to_address_def from_hex_def bytes_to_address_def Let_def unat_of_nat)
qed

section \<open>Properties of the validators\<close>

text \<open>
  C31. \<open>ValidateAddress\<close> accepts exactly the strings of 40 hex digits (either case),
  optionally after \<open>0x\<close> or \<open>0X\<close>, and returns the address whose value they spell.
\<close>

theorem validate_address_accepts:
  "validate_address name s = Inr w \<longleftrightarrow>
     is_hex_address s \<and> unat w = foldl (\<lambda>n c. 16 * n + nibble c) 0 (strip_0x s)"
  using hex_to_address_value [of s]
  by (auto simp: validate_address_def word_unat_eq_iff)

end
