(* ===== verification/Spec2Isabelle.thy ===== *)
theory Spec2Isabelle
  imports Artifacts EnsName ValidationFloat EthAddress
begin

text \<open>
  A verification library for two parts of the smartnode repository:
  \<^item> the rewards-artifact pipeline \<open>src/shared/services/rewards/files.go\<close>, which
    writes the minipool performance file and the rewards tree file of a reward interval,
    their zstd-compressed copies, and the IPFS content identifiers (CIDs) of all four,
    injecting the compressed performance file's CID into the rewards file before the
    latter is serialised;
  \<^item> the command-line validators \<open>src/shared/utils/cli/validation.go\<close>, which turn
    the strings a user types into the values the commands use, or into an error message;
  \<^item> the wallet commands \<open>setEnsName\<close> and \<open>setEnsAvatar\<close> of
    \<open>src/rocketpool-cli/wallet/ens-name.go\<close>, which ask the node for a gas estimate,
    confirm with the user and send an ENS transaction through the node's API client.
  The parts do not call each other in these files; the ENS commands print big integers
  with the decimal printer of \<open>GoStrings\<close> and quote with the validators' \<open>sq\<close>.

  Theories, in import order:
  \<^item> \<open>Prelude\<close>: bytes as \<open>8 word list\<close>, Go error values (\<open>Wrap\<close> is
    \<open>fmt.Errorf("...: %w")\<close>), the outcome of a function that may panic, the
    collections \<open>go_model\<close> and \<open>fs_simps\<close>, generic lemmas on error propagation.
  \<^item> \<open>Filepath\<close>: \<open>filepath.Base\<close> with the lemma that a separator-free extension
    appended to a path is appended to its base name.
  \<^item> \<open>LocalFile\<close>: the payload record (\<open>IRewardsFile\<close> as the code uses it), the
    collaborators' interface record \<open>artifact_env\<close> (serialisers, deserialisers, the
    CID calculation, the zstd encoder, the configured paths), the file system with its
    write log, the world (shared rewards object and file system), and the methods of
    \<open>LocalFile[T]\<close>: \<open>lf_serialize\<close>, \<open>lf_write\<close>, \<open>lf_path\<close>, \<open>lf_file_name\<close>,
    \<open>create_compressed_file_and_cid\<close>, and the readers
    \<open>read_local_rewards_file\<close>, \<open>read_local_minipool_performance_file\<close>;
    the interfaces \<open>ISerializable\<close> and \<open>ILocalFile\<close> as records of methods
    (\<open>ilocal_file\<close> extends \<open>iserializable\<close>, as the Go interface embeds it),
    and \<open>local_file_ilocal\<close>, the method set of \<open>*LocalFile[T]\<close>.
  \<^item> \<open>Artifacts\<close>: \<open>saveJSONArtifacts\<close> as \<open>save_loop\<close> over the
    \<open>[]ILocalFile\<close> list \<open>artifact_files\<close>, calling the wrappers only through
    the interface, and \<open>save_json_artifacts\<close>, which turns the nil
    \<open>primaryCid\<close> into a panic.
  \<^item> \<open>GoStrings\<close>: the Go library functions the validators call, on byte strings:
    \<open>strings.ToLower\<close>, \<open>strconv.ParseUint\<close> base 10, \<open>big.Int\<close>'s
    \<open>SetString\<close> and \<open>String\<close>, \<open>%d\<close> formatting (\<open>dec_string\<close>), and
    \<open>strings.TrimSpace\<close> over the UTF-8 encodings of the Unicode white-space runes.
  \<^item> \<open>Validation\<close>: one definition per validator of \<open>validation.go\<close>
    (\<open>ValidateX\<close> is \<open>validate_x\<close>), returning \<open>Inl\<close> the message Go formats
    or \<open>Inr\<close> the value; the two regular expressions both as the language the pattern
    denotes and as an executable matcher.
  \<^item> \<open>GoFloat\<close>: \<open>float64\<close> as a datatype (a finite double by its rational value,
    the two infinities, NaN), the IEEE comparisons \<open>f_lt\<close>, \<open>f_le\<close>, \<open>f_eq\<close>
    (false on NaN), and \<open>strconv.ParseFloat\<close>: \<open>special\<close>, the scanner of
    \<open>readFloat\<close> (\<open>scan_mantissa\<close>, \<open>scan_exponent\<close>, \<open>underscore_ok\<close>),
    the exact value \<open>read_float\<close>, and \<open>round_f64\<close>, rounding to the nearest
    binary64 value, ties to even, with the range error on overflow.
  \<^item> \<open>ValidationFloat\<close>: the five \<open>float64\<close> validators of \<open>validation.go\<close>.
  \<^item> \<open>EthAddress\<close>: \<open>ValidateAddress\<close> over go-ethereum's \<open>IsHexAddress\<close> and
    \<open>HexToAddress\<close> (prefix, hex test, the partial decode of \<open>Hex2Bytes\<close>, the last
    20 bytes of \<open>BytesToAddress\<close>), an address being the prelude's \<open>160 word\<close>;
    and \<open>ValidateWalletMnemonic\<close> with the bip39 test as a parameter.
  \<^item> \<open>EnsName\<close>: the interface record \<open>ens_env\<close> of the client calls, the gas
    helper and the prompt; the datatype \<open>event\<close> of the calls a run makes; the two
    commands \<open>set_ens_name\<close> and \<open>set_ens_avatar\<close>, written out as the code is, each
    returning the Go error (\<open>None\<close> for \<open>nil\<close>) and the list of calls, the
    deferred \<open>Close\<close> appended on every path after the client was opened; the shared
    flow \<open>tx_command\<close> both are proved equal to; and the client protocol as an
    automaton: the step relation \<open>proto_step\<close> on phases and its runs \<open>proto_run\<close>
    (inductive, with \<open>code_pred\<close>), with invariants proved by rule induction.

  What the lemmas show. For \<open>saveJSONArtifacts\<close> (C1 to C8): what a trusted run writes
  and in which order, that the rewards file embeds the compressed performance file's CID,
  that the primary CID is the compressed rewards file's, that an untrusted run never
  returns normally (it panics on the nil \<open>primaryCid\<close>), that a stale CID field is
  irrelevant, when a trusted run succeeds, and the error path of a failed write. For
  \<open>LocalFile\<close> (C9 to C11): the write/read round trip, the name and content of the
  compressed copy, and the three error paths of \<open>CreateCompressedFileAndCid\<close> with
  their messages, none of them a compression failure; \<open>filepath.Base\<close> is
  characterised by a lemma of \<open>Filepath\<close>. For the validators (C12 to C18): the exact
  64-bit range of \<open>ValidateUint\<close>, the round trip of \<open>ValidateWeiAmount\<close>,
  positivity, the deposit amounts as values rather than strings, the trimmed DAO member
  id, and the equivalence of the matchers with the two patterns. For the ENS commands
  (C19 to C25): both refine the protocol automaton, a transaction is sent only after a
  yes to the command's own prompt and waited for by its own hash, the client is closed
  exactly once and last, and the result is \<open>nil\<close> exactly on success or a declined
  prompt. For the \<open>float64\<close> validators and \<open>ParseFloat\<close> (C26 to C30): exactly
  which values each float validator accepts, NaN included where the range checks are
  IEEE comparisons, integers below \<open>2^53\<close> are read exactly, and which strings
  \<open>ParseFloat\<close> reads as NaN. For \<open>ValidateAddress\<close> (C31): exactly the 40-digit
  hex strings are accepted, and the address returned is the value they spell. Across
  validators (C32, C33): \<open>ValidateBool\<close> ignores case, and every burnable token type
  is a token type with the same canonical name.

  Bounds and termination. No definition uses fuel: the artifact loop recurses on the
  two-element wrapper list, decimal printing on \<open>n div 10\<close>, and the two trimming
  loops are \<open>function\<close>s whose termination is proved by the length of the string,
  which each step strictly shortens, so every definition of the model is total.
  \<open>uint64\<close> is \<open>64 word\<close>, so the bound
  \<open>2^64\<close> of \<open>ParseUint\<close> is proved rather than assumed; \<open>big.Int\<close> is \<open>int\<close>.
  The scanners of \<open>ParseFloat\<close> recurse on the string; the exponent saturates at 10000
  as in Go; binary64 is fixed by its constants (53 bits, exponents -1022 to 1023).

  The wrapper refers to its payload: the rewards wrapper holds \<open>RewardsRef\<close>, a
  reference to the world's rewards object, so that the CID injected by the loop's first
  iteration is what the second iteration serialises, as with Go's pointer.

  Not modelled: the content of the payloads beyond the fields this code reads and
  writes, the zstd algorithm, the CID encoding (both are interface fields, so the
  theorems hold for every implementation; neither is under \<open>src/\<close> and the spec
  fixes neither bit-exactly), partial writes of \<open>os.WriteFile\<close>, and the two type
  aliases \<open>LocalRewardsFile\<close> and \<open>LocalMinipoolPerformanceFile\<close>, which the
  model does not need because its wrapper is not generic in the payload type.
  Of \<open>validation.go\<close>: the bip39 word list and checksum behind
  \<open>ValidateWalletMnemonic\<close> and \<open>passwords.MinPasswordLength\<close> (both outside
  \<open>src/\<close>) are parameters; the EIP-55 checksum casing of \<open>Address.Hex\<close> (Keccak-256)
  is not modelled, the ENS avatar message takes it from the interface. The
  sign of a floating-point zero is not kept: \<open>-0\<close> and \<open>+0\<close> compare equal and
  every validator treats them alike. Of \<open>ens-name.go\<close>: what the node does with the
  transaction and the content of \<open>PrintTransactionHash\<close>'s output (outside \<open>src/\<close>;
  the call is an event).
\<close>

end
